theory Spec2Isabelle
  imports Complex_Main
begin

section \<open>Data model\<close>

text \<open>
  The layer \<open>GATConv\<close> of \<open>triton_tests/gat.py\<close>. Tensors carry a shape and
  their entries in row-major order, as the tensor runtime stores them. Entries are reals:
  the arithmetic of the layer is stated over exact numbers, and rounding is not modelled.
  The reals have no infinite value and no not-a-number either; a statement that needs the
  program's numbers to stay finite carries that as a hypothesis (\<open>finite_pass\<close>
  below).
\<close>

datatype error =
    AssertionError string
  | RuntimeError
  | IndexError
  | ValueError
  | TypeError
  | LibraryError

datatype tensor = Tensor (shape: "nat list") (data: "real list")

definition dim :: "tensor \<Rightarrow> nat" where
  "dim t = length (shape t)"

definition numel :: "tensor \<Rightarrow> nat" where
  "numel t = prod_list (shape t)"

type_synonym edges = "(nat \<times> nat) list"
type_synonym attr = "real list list"
type_synonym t3 = "real list list list"
type_synonym t4 = "real list list list list"

text \<open>
  A sparse tensor of the runtime: its layout, its edges as (source, destination) pairs,
  and the values of the edges.
\<close>

datatype layout = SparseCOO | SparseCSR | SparseCSC

datatype sparse = Sparse (sp_layout: layout) (sp_indices: edges) (sp_values: tensor)

text \<open>
  An adjacency (the type \<open>Adj\<close> of lines 71 to 77) is a dense edge index, a list of
  (source, destination) pairs, or a sparse tensor of the runtime, or a \<open>SparseTensor\<close>
  of the sparse library, which is kept abstract. \<open>is_torch_sparse_tensor\<close> holds of
  the sparse tensors of the runtime alone: a \<open>SparseTensor\<close> is not a tensor of the
  runtime.
\<close>

datatype 's adj = EdgeIndex edges | SparseAdj sparse | SparseTensorAdj 's

fun is_torch_sparse_tensor :: "'s adj \<Rightarrow> bool" where
  "is_torch_sparse_tensor (EdgeIndex es) = False"
| "is_torch_sparse_tensor (SparseAdj s) = True"
| "is_torch_sparse_tensor (SparseTensorAdj t) = False"

text \<open>
  The operations of the library on sparse adjacencies are not part of the source file.
  They are taken as parameters: how self-loops are removed from a sparse tensor and added
  to it, how a \<open>SparseTensor\<close> lists its edges, and how self-loops are removed from
  it and added to it (\<open>None\<close> when the library raises, which the layer passes on
  as \<open>LibraryError\<close>).
\<close>

record 's sparse_lib =
  remove_self_loops_sparse :: "sparse \<Rightarrow> attr option \<Rightarrow> (sparse \<times> attr option) option"
  add_self_loops_sparse :: "sparse \<Rightarrow> attr option \<Rightarrow> nat \<Rightarrow> (sparse \<times> attr option) option"
  to_edge_index :: "'s \<Rightarrow> edges"
  remove_self_loops_tensor :: "'s \<Rightarrow> attr option \<Rightarrow> ('s \<times> attr option) option"
  add_self_loops_tensor :: "'s \<Rightarrow> attr option \<Rightarrow> nat \<Rightarrow> ('s \<times> attr option) option"

text \<open>
  Modelled from the spec: \<open>set_sparse_value\<close> is a function of the graph library, not
  of the source file. It returns the adjacency in the same sparse representation, the
  same layout and the same edges, with the given tensor as the values of its edges.
\<close>

definition set_sparse_value :: "sparse \<Rightarrow> tensor \<Rightarrow> sparse" where
  "set_sparse_value s v = Sparse (sp_layout s) (sp_indices s) v"

text \<open>
  The fields of \<open>__init__\<close> (lines 45 to 61), the mode flag \<open>training\<close> of the
  module, and the learnable parameters: \<open>lin_weight L k c\<close> is the weight of the
  linear map from input channel \<open>c\<close> to output feature \<open>k\<close>, and
  \<open>att_src L h f\<close>, \<open>att_dst L h f\<close> are the attention vectors of shape
  \<open>[1, 1, heads, out_channels]\<close>. The policy \<open>fill_value\<close> is kept as the
  function that gives the attributes of the new self-loops from the edges, their attributes
  and the number of nodes.
\<close>

record GATConv =
  in_channels :: nat
  out_channels :: nat
  heads :: nat
  concat_heads :: bool
  negative_slope :: real
  dropout :: real
  add_self_loops :: bool
  fill_value :: "edges \<Rightarrow> attr \<Rightarrow> nat \<Rightarrow> attr"
  training :: bool
  lin_weight :: "nat \<Rightarrow> nat \<Rightarrow> real"
  att_src :: "nat \<Rightarrow> nat \<Rightarrow> real"
  att_dst :: "nat \<Rightarrow> nat \<Rightarrow> real"

datatype 's forward_result =
    OnlyOut tensor
  | WithAttention tensor "'s adj" tensor

section \<open>Tensor operations used by the layer\<close>

text \<open>
  \<open>self.lin(x)\<close>, a linear map without bias applied to the last dimension: the last
  dimension must be \<open>in_channels\<close> and becomes \<open>heads * out_channels\<close>.
\<close>

definition lin :: "GATConv \<Rightarrow> tensor \<Rightarrow> error + tensor" where
  "lin L x =
     (if shape x = [] \<or> last (shape x) \<noteq> in_channels L then Inl RuntimeError
      else Inr (Tensor (butlast (shape x) @ [heads L * out_channels L])
             (concat (map (\<lambda>r. map (\<lambda>k. \<Sum>c\<leftarrow>[0..<in_channels L].
                                       data x ! (r * in_channels L + c) * lin_weight L k c)
                                 [0..<heads L * out_channels L])
                       [0..<prod_list (butlast (shape x))]))))"

text \<open>
  \<open>t.view(-1, d1, d2, d3)\<close>: the entries stay as they are, the first dimension is
  inferred. The runtime refuses a product of zero for the given dimensions, and a number
  of entries that they do not divide.
\<close>

definition view4 :: "tensor \<Rightarrow> nat \<Rightarrow> nat \<Rightarrow> nat \<Rightarrow> error + tensor" where
  "view4 t d1 d2 d3 =
     (if d1 * d2 * d3 = 0 \<or> numel t mod (d1 * d2 * d3) \<noteq> 0 then Inl RuntimeError
      else Inr (Tensor [numel t div (d1 * d2 * d3), d1, d2, d3] (data t)))"

text \<open>The entries of a rank-4 tensor as nested lists, \<open>[n][d][h][f]\<close>.\<close>

definition nest4 :: "tensor \<Rightarrow> t4" where
  "nest4 t =
     (let D = shape t ! 1; H = shape t ! 2; F = shape t ! 3 in
      map (\<lambda>n. map (\<lambda>d. map (\<lambda>h. map (\<lambda>f. data t ! (((n * D + d) * H + h) * F + f))
        [0..<F]) [0..<H]) [0..<D]) [0..<shape t ! 0])"

text \<open>The entries of a rank-3 tensor as nested lists, \<open>[n][d][k]\<close>.\<close>

definition nest3 :: "tensor \<Rightarrow> t3" where
  "nest3 t =
     (let D = shape t ! 1; K = shape t ! 2 in
      map (\<lambda>n. map (\<lambda>d. map (\<lambda>k. data t ! ((n * D + d) * K + k)) [0..<K]) [0..<D])
        [0..<shape t ! 0])"

text \<open>\<open>(x * att).sum(dim=-1)\<close> for \<open>att\<close> of shape \<open>[1, 1, H, F]\<close>.\<close>

definition att_sum :: "t4 \<Rightarrow> (nat \<Rightarrow> nat \<Rightarrow> real) \<Rightarrow> nat \<Rightarrow> nat \<Rightarrow> t3" where
  "att_sum x att H F =
     map (map (\<lambda>blk. map (\<lambda>h. \<Sum>f\<leftarrow>[0..<F]. blk ! h ! f * att h f) [0..<H])) x"

section \<open>Library operations on the graph\<close>

text \<open>The edges that message passing walks over, as (source, destination) pairs.\<close>

definition edge_list :: "'s sparse_lib \<Rightarrow> 's adj \<Rightarrow> edges" where
  "edge_list lib edge_index =
     (case edge_index of
        EdgeIndex es \<Rightarrow> es
      | SparseAdj s \<Rightarrow> sp_indices s
      | SparseTensorAdj t \<Rightarrow> to_edge_index lib t)"

text \<open>
  Modelled from the spec: \<open>remove_self_loops\<close> is a function of the graph library, not
  of the source file. It drops every self-referencing edge, and the attribute of each
  dropped edge with it (a mask over the edges; attributes of another length are refused).
\<close>

definition remove_self_loops ::
  "'s sparse_lib \<Rightarrow> 's adj \<Rightarrow> attr option \<Rightarrow> error + 's adj \<times> attr option" where
  "remove_self_loops lib edge_index edge_attr =
     (case edge_index of
        SparseAdj s \<Rightarrow>
          (case remove_self_loops_sparse lib s edge_attr of
             None \<Rightarrow> Inl LibraryError
           | Some (s', a) \<Rightarrow> Inr (SparseAdj s', a))
      | SparseTensorAdj t \<Rightarrow>
          (case remove_self_loops_tensor lib t edge_attr of
             None \<Rightarrow> Inl LibraryError
           | Some (t', a) \<Rightarrow> Inr (SparseTensorAdj t', a))
      | EdgeIndex es \<Rightarrow>
          (case edge_attr of
             None \<Rightarrow> Inr (EdgeIndex (filter (\<lambda>(j, i). j \<noteq> i) es), None)
           | Some a \<Rightarrow>
               if length a \<noteq> length es then Inl IndexError
               else Inr (EdgeIndex (filter (\<lambda>(j, i). j \<noteq> i) es),
                      Some (map snd (filter (\<lambda>((j, i), v). j \<noteq> i) (zip es a))))))"

text \<open>
  Modelled from the spec: \<open>add_self_loops\<close> is a function of the graph library, not of
  the source file. It appends one self-loop \<open>(i, i)\<close> for each \<open>i\<close> below
  \<open>num_nodes\<close>, with attributes given by the \<open>fill_value\<close> policy.
\<close>

definition add_self_loops_lib ::
  "'s sparse_lib \<Rightarrow> 's adj \<Rightarrow> attr option \<Rightarrow> (edges \<Rightarrow> attr \<Rightarrow> nat \<Rightarrow> attr) \<Rightarrow> nat
     \<Rightarrow> error + 's adj \<times> attr option" where
  "add_self_loops_lib lib edge_index edge_attr fill num_nodes =
     (case edge_index of
        SparseAdj s \<Rightarrow>
          (case add_self_loops_sparse lib s edge_attr num_nodes of
             None \<Rightarrow> Inl LibraryError
           | Some (s', a) \<Rightarrow> Inr (SparseAdj s', a))
      | SparseTensorAdj t \<Rightarrow>
          (case add_self_loops_tensor lib t edge_attr num_nodes of
             None \<Rightarrow> Inl LibraryError
           | Some (t', a) \<Rightarrow> Inr (SparseTensorAdj t', a))
      | EdgeIndex es \<Rightarrow>
          Inr (EdgeIndex (es @ map (\<lambda>i. (i, i)) [0..<num_nodes]),
               map_option (\<lambda>a. a @ fill es a num_nodes) edge_attr))"

section \<open>Attention coefficients: \<open>edge_update\<close>\<close>

text \<open>
  \<open>alpha_j + alpha_i\<close> for two tensors of the same shape \<open>[E, D, H]\<close>, which is
  what \<open>edge_updater\<close> hands over; broadcasting between different shapes is not
  modelled.
\<close>

definition add3 :: "t3 \<Rightarrow> t3 \<Rightarrow> t3" where
  "add3 a b = map2 (map2 (map2 (+))) a b"

text \<open>
  \<open>.mean(dim=1, keepdim=True)\<close> on \<open>[E, D, H]\<close>: one block per edge is left, the
  mean of its \<open>D\<close> rows. For \<open>D = 0\<close> the runtime gives not-a-number entries, which
  the reals do not have; \<open>forward\<close> never gets there, its \<open>view\<close> refuses
  \<open>D = 0\<close> before.
\<close>

definition mean_dim1 :: "t3 \<Rightarrow> t3" where
  "mean_dim1 a =
     map (\<lambda>blk. [map (\<lambda>h. (\<Sum>row\<leftarrow>blk. row ! h) / real (length blk))
                   [0..<(case blk of [] \<Rightarrow> 0 | row # _ \<Rightarrow> length row)]]) a"

definition leaky_relu :: "real \<Rightarrow> real \<Rightarrow> real" where
  "leaky_relu v slope = (if 0 \<le> v then v else slope * v)"

text \<open>
  Modelled from the spec: \<open>softmax\<close> is a function of the graph library, not of the
  source file. It normalises along the edges that share an index, independently for every
  position below the edge dimension: the maximum of the group is subtracted, the result
  is exponentiated and divided by the sum of the group's exponentials.
\<close>

definition group :: "t3 \<Rightarrow> nat list \<Rightarrow> nat \<Rightarrow> nat \<Rightarrow> nat \<Rightarrow> real list" where
  "group src index i d h =
     map (\<lambda>(blk, k). blk ! d ! h) (filter (\<lambda>(blk, k). k = i) (zip src index))"

definition softmax :: "t3 \<Rightarrow> nat list \<Rightarrow> t3" where
  "softmax src index =
     map (\<lambda>(blk, i).
        map (\<lambda>d. map (\<lambda>h.
          (let g = group src index i d h; m = fold max g (blk ! d ! h)
           in exp (blk ! d ! h - m) / (\<Sum>v\<leftarrow>g. exp (v - m))))
          [0..<length (blk ! d)]) [0..<length blk])
       (zip src index)"

text \<open>
  \<open>F.dropout(alpha, p, training)\<close>: a probability outside \<open>[0, 1]\<close> is refused; in
  inference mode the input is returned; in training mode the entry at \<open>(e, d, h)\<close> is
  kept and scaled by \<open>1 / (1 - p)\<close> when its uniform draw \<open>u e d h\<close> is at least
  \<open>p\<close>, and zeroed otherwise. The draws stand for the random number generator.
\<close>

definition F_dropout :: "t3 \<Rightarrow> real \<Rightarrow> bool \<Rightarrow> (nat \<Rightarrow> nat \<Rightarrow> nat \<Rightarrow> real) \<Rightarrow> error + t3" where
  "F_dropout a p tr u =
     (if p < 0 \<or> 1 < p then Inl ValueError
      else if \<not> tr then Inr a
      else Inr (map (\<lambda>(e, blk). map (\<lambda>(d, row). map (\<lambda>(h, v).
                   if p \<le> u e d h then v / (1 - p) else 0)
                 (zip [0..<length row] row)) (zip [0..<length blk] blk))
               (zip [0..<length a] a)))"

text \<open>
  \<open>edge_update\<close> (lines 140 to 152). \<open>alpha_i\<close> is optional in the signature and
  added without a test, so \<open>None\<close> is a type error. The arguments \<open>ptr\<close> and
  \<open>size_i\<close> are only handed to \<open>softmax\<close>, which groups by \<open>index\<close>.
\<close>

definition edge_update ::
  "GATConv \<Rightarrow> t3 \<Rightarrow> t3 option \<Rightarrow> attr option \<Rightarrow> nat list \<Rightarrow> (nat \<Rightarrow> nat \<Rightarrow> nat \<Rightarrow> real)
     \<Rightarrow> error + t3" where
  "edge_update L alpha_j alpha_i edge_attr index u =
     (case alpha_i of
        None \<Rightarrow> Inl TypeError
      | Some a_i \<Rightarrow>
          (let alpha = mean_dim1 (add3 alpha_j a_i) in
           if length index = 0 then Inr alpha
           else
             (let alpha1 = map (map (map (\<lambda>v. leaky_relu v (negative_slope L)))) alpha;
                  alpha2 = softmax alpha1 index
              in F_dropout alpha2 (dropout L) (training L) u)))"

text \<open>
  A rank-3 tensor given as nested lists has the shape \<open>[E, D, H]\<close>.
\<close>

definition shape3 :: "t3 \<Rightarrow> nat \<Rightarrow> nat \<Rightarrow> nat \<Rightarrow> bool" where
  "shape3 a E D H \<longleftrightarrow>
     length a = E \<and> list_all (\<lambda>blk. length blk = D \<and> list_all (\<lambda>row. length row = H) blk) a"

text \<open>
  \<open>message\<close> (lines 154 to 155): \<open>alpha.unsqueeze(-1) * x_j\<close>, for \<open>x_j\<close> of
  shape \<open>[E, D, H, F]\<close>. Every feature of a head is multiplied by the weight of that
  head. Weights with a single row per edge, as \<open>edge_update\<close> gives them, are
  broadcast over the \<open>D\<close> rows of \<open>x_j\<close>; weights with \<open>D\<close> rows are applied
  row by row.
\<close>

definition scale_heads :: "real list \<Rightarrow> real list list \<Rightarrow> real list list" where
  "scale_heads ws blk = map2 (\<lambda>w row. map (\<lambda>v. w * v) row) ws blk"

definition message :: "t4 \<Rightarrow> t3 \<Rightarrow> t4" where
  "message x_j alpha =
     map2 (\<lambda>a xj. if length a = 1 then map (scale_heads (hd a)) xj
                   else map2 scale_heads a xj) alpha x_j"

section \<open>Message passing\<close>

text \<open>
  Modelled from the spec: \<open>edge_updater\<close> is a method of the message-passing base
  class of the graph library, not of the source file. For every edge it gathers the
  source-side logits of the source node and the destination-side logits of the
  destination node and calls \<open>edge_update\<close> with the destination indices as
  \<open>index\<close>. That an index outside the nodes is refused is the library's behaviour.
\<close>

definition edge_updater ::
  "'s sparse_lib \<Rightarrow> GATConv \<Rightarrow> 's adj \<Rightarrow> t3 \<times> t3 \<Rightarrow> attr option
     \<Rightarrow> (nat \<Rightarrow> nat \<Rightarrow> nat \<Rightarrow> real) \<Rightarrow> error + t3" where
  "edge_updater lib L edge_index alpha edge_attr u =
     (let es = edge_list lib edge_index in
      if \<not> list_all (\<lambda>(j, i). j < length (fst alpha) \<and> i < length (snd alpha)) es
      then Inl IndexError
      else edge_update L (map (\<lambda>(j, i). fst alpha ! j) es)
             (Some (map (\<lambda>(j, i). snd alpha ! i) es)) edge_attr (map snd es) u)"

text \<open>
  The aggregation \<open>aggr = 'add'\<close>: for each destination node, the sum of the messages
  of its incoming edges.
\<close>

definition aggregate :: "t4 \<Rightarrow> nat list \<Rightarrow> nat \<Rightarrow> nat \<Rightarrow> nat \<Rightarrow> nat \<Rightarrow> t4" where
  "aggregate inputs index dim_size D H F =
     map (\<lambda>i. map (\<lambda>d. map (\<lambda>h. map (\<lambda>f.
         (\<Sum>(m, k)\<leftarrow>filter (\<lambda>(m, k). k = i) (zip inputs index). m ! d ! h ! f))
       [0..<F]) [0..<H]) [0..<D]) [0..<dim_size]"

definition flatten4 :: "t4 \<Rightarrow> real list" where
  "flatten4 a = concat (map (\<lambda>n. concat (map concat n)) a)"

text \<open>
  Modelled from the spec: \<open>propagate\<close> is a method of the message-passing base class
  of the graph library, not of the source file. It gathers the projected features of
  each edge's source node, calls \<open>message\<close> and sums the messages by destination.
  That an explicit \<open>size\<close> must agree with the number of source nodes and gives the
  number of destination nodes, and that an index outside the nodes is refused, is the
  library's behaviour.
\<close>

definition propagate ::
  "'s sparse_lib \<Rightarrow> 's adj \<Rightarrow> tensor \<Rightarrow> t3 \<Rightarrow> (nat \<times> nat) option \<Rightarrow> error + tensor" where
  "propagate lib edge_index x alpha size_pair =
     (let es = edge_list lib edge_index;
          N = shape x ! 0; D = shape x ! 1; H = shape x ! 2; F = shape x ! 3;
          dim_size = (case size_pair of None \<Rightarrow> N | Some (s0, s1) \<Rightarrow> s1)
      in if (case size_pair of None \<Rightarrow> False | Some (s0, s1) \<Rightarrow> s0 \<noteq> N) then Inl ValueError
         else if \<not> list_all (\<lambda>(j, i). j < N) es then Inl IndexError
         else if \<not> list_all (\<lambda>(j, i). i < dim_size) es then Inl RuntimeError
         else Inr (Tensor [dim_size, D, H, F]
                (flatten4 (aggregate (message (map (\<lambda>(j, i). nest4 x ! j) es) alpha)
                   (map snd es) dim_size D H F))))"

section \<open>The forward pass\<close>

text \<open>\<open>out.view(-1, d1, d2)\<close>.\<close>

definition view3 :: "tensor \<Rightarrow> nat \<Rightarrow> nat \<Rightarrow> error + tensor" where
  "view3 t d1 d2 =
     (if d1 * d2 = 0 \<or> numel t mod (d1 * d2) \<noteq> 0 then Inl RuntimeError
      else Inr (Tensor [numel t div (d1 * d2), d1, d2] (data t)))"

text \<open>\<open>out.mean(dim=2)\<close> on a rank-4 tensor.\<close>

definition mean_dim2 :: "tensor \<Rightarrow> tensor" where
  "mean_dim2 t =
     Tensor [shape t ! 0, shape t ! 1, shape t ! 3]
       (concat (concat (map (map (\<lambda>blk. map (\<lambda>f. (\<Sum>row\<leftarrow>blk. row ! f) / real (shape t ! 2))
                                          [0..<shape t ! 3])) (nest4 t))))"

definition static_message :: string where
  "static_message = ''Static graphs not supported in '' @ [CHR 0x27] @ ''GATConv'' @ [CHR 0x27]"

text \<open>
  Lines 108 to 117 of \<open>forward\<close>: with \<open>add_self_loops\<close>, the number of nodes
  is the first dimension of the projected \<open>x\<close>, or the smaller entry of \<open>size\<close>
  when one is given; the self-loops there are removed, then one is added per node.
  Without \<open>add_self_loops\<close> the adjacency and the attributes stay the caller's.
\<close>

definition self_loops_step ::
  "'s sparse_lib \<Rightarrow> GATConv \<Rightarrow> tensor \<Rightarrow> 's adj \<Rightarrow> attr option \<Rightarrow> (nat \<times> nat) option
     \<Rightarrow> error + 's adj \<times> attr option" where
  "self_loops_step lib L x edge_index edge_attr size_pair =
     (if add_self_loops L then
        (let num_nodes = shape x ! 0;
             num_nodes' = (case size_pair of Some (s0, s1) \<Rightarrow> min s0 s1 | None \<Rightarrow> num_nodes)
         in case remove_self_loops lib edge_index edge_attr of
              Inl e \<Rightarrow> Inl e
            | Inr (ei, ea) \<Rightarrow> add_self_loops_lib lib ei ea (fill_value L) num_nodes')
      else Inr (edge_index, edge_attr))"

text \<open>
  Lines 125 to 128: the heads are concatenated by a \<open>view\<close>, or averaged.
\<close>

definition combine_heads :: "GATConv \<Rightarrow> tensor \<Rightarrow> nat \<Rightarrow> error + tensor" where
  "combine_heads L out x_dim =
     (if concat_heads L then view3 out x_dim (heads L * out_channels L)
      else Inr (mean_dim2 out))"

text \<open>
  Lines 130 to 138: whenever \<open>return_attention_weights\<close> is a boolean, whatever its
  value, the adjacency and the attention weights are returned too; a sparse tensor of the
  runtime gets the weights as its values, any other adjacency is returned as it is.
\<close>

definition returned ::
  "'s sparse_lib \<Rightarrow> tensor \<Rightarrow> 's adj \<Rightarrow> tensor \<Rightarrow> bool option \<Rightarrow> 's forward_result" where
  "returned lib out edge_index alpha return_attention_weights =
     (case return_attention_weights of
        Some b \<Rightarrow>
          (if is_torch_sparse_tensor edge_index then
             (case edge_index of
                SparseAdj s \<Rightarrow> WithAttention out (SparseAdj (set_sparse_value s alpha)) alpha
              | _ \<Rightarrow> WithAttention out edge_index alpha)
           else WithAttention out edge_index alpha)
      | None \<Rightarrow> OnlyOut out)"

text \<open>
  \<open>forward\<close> (lines 71 to 138). \<open>return_attention_weights\<close> is \<open>None\<close> or a
  boolean; \<open>size_pair\<close> is the optional \<open>size\<close>; \<open>u\<close> gives the draws of
  dropout. The attention weights are returned as a tensor of shape
  \<open>[num_edges, 1, heads]\<close>.
\<close>

definition forward ::
  "'s sparse_lib \<Rightarrow> GATConv \<Rightarrow> tensor \<Rightarrow> 's adj \<Rightarrow> attr option \<Rightarrow> (nat \<times> nat) option
     \<Rightarrow> bool option \<Rightarrow> (nat \<Rightarrow> nat \<Rightarrow> nat \<Rightarrow> real) \<Rightarrow> error + 's forward_result" where
  "forward lib L x edge_index edge_attr size_pair return_attention_weights u =
     (let H = heads L; F = out_channels L in
      if dim x \<noteq> 3 then Inl (AssertionError static_message)
      else
        (let x_dim = shape x ! 1 in
         (case lin L x of Inl e \<Rightarrow> Inl e | Inr y \<Rightarrow>
         (case view4 y x_dim H F of Inl e \<Rightarrow> Inl e | Inr x' \<Rightarrow>
         (let alpha_src = att_sum (nest4 x') (att_src L) H F;
              alpha_dst = att_sum (nest4 x') (att_dst L) H F
          in
          (case self_loops_step lib L x' edge_index edge_attr size_pair of
             Inl e \<Rightarrow> Inl e
           | Inr (edge_index', edge_attr') \<Rightarrow>
          (case edge_updater lib L edge_index' (alpha_src, alpha_dst) edge_attr' u of
             Inl e \<Rightarrow> Inl e
           | Inr alpha \<Rightarrow>
          (case propagate lib edge_index' x' alpha size_pair of
             Inl e \<Rightarrow> Inl e
           | Inr out \<Rightarrow>
          (case combine_heads L out x_dim of
             Inl e \<Rightarrow> Inl e
           | Inr out' \<Rightarrow>
               Inr (returned lib out' edge_index'
                      (Tensor [length alpha, 1, H] (concat (concat alpha)))
                      return_attention_weights))))))))))"

text \<open>The node embeddings of a result.\<close>

fun out_of :: "'s forward_result \<Rightarrow> tensor" where
  "out_of (OnlyOut out) = out"
| "out_of (WithAttention out edge_index alpha) = out"

section \<open>The range of the numbers\<close>

text \<open>
  The numbers of the program are floating-point numbers, of 32 bits in the default type
  in which the parameters of lines 55 to 61 are created; \<open>float_max\<close> is the largest
  finite one. A sum or product beyond it is infinite in the program, and the softmax of an
  infinite score is not a number; the reals have neither. A statement about values that
  depends on the numbers staying finite says so with \<open>finite_pass\<close>: the sums of
  line 100 (the projection), of lines 104 and 105 (the logits), of line 145 (the sum and
  the mean of the logits of a node with itself), of line 128 (the mean over the heads) and
  the scores of line 149 stay in the range. The sums are bounded through the sums of the
  absolute values of their terms, so that every partial sum is in the range too.
\<close>

definition float_max :: real where
  "float_max = (2 - 1 / 2 ^ 23) * 2 ^ 127"






section \<open>\<open>edge_update\<close> on floating-point numbers\<close>

text \<open>
  The numbers of the program with their infinities and not-a-number. A finite result
  beyond \<open>float_max\<close> overflows to an infinity; rounding is not modelled, and neither
  is the sign of zero.
\<close>

datatype fnum = Fin real | PInf | NInf | NaN

type_synonym f3 = "fnum list list list"

definition ovf :: "real \<Rightarrow> fnum" where
  "ovf v = (if float_max < v then PInf else if v < - float_max then NInf else Fin v)"

fun is_fin :: "fnum \<Rightarrow> bool" where
  "is_fin (Fin a) = True"
| "is_fin PInf = False"
| "is_fin NInf = False"
| "is_fin NaN = False"

fun fneg :: "fnum \<Rightarrow> fnum" where
  "fneg (Fin a) = Fin (- a)"
| "fneg PInf = NInf"
| "fneg NInf = PInf"
| "fneg NaN = NaN"

fun fadd :: "fnum \<Rightarrow> fnum \<Rightarrow> fnum" where
  "fadd (Fin a) (Fin b) = ovf (a + b)"
| "fadd (Fin a) PInf = PInf"
| "fadd (Fin a) NInf = NInf"
| "fadd PInf (Fin b) = PInf"
| "fadd PInf PInf = PInf"
| "fadd NInf (Fin b) = NInf"
| "fadd NInf NInf = NInf"
| "fadd PInf NInf = NaN"
| "fadd NInf PInf = NaN"
| "fadd NaN b = NaN"
| "fadd a NaN = NaN"

definition fsub :: "fnum \<Rightarrow> fnum \<Rightarrow> fnum" where
  "fsub a b = fadd a (fneg b)"

fun fdiv :: "fnum \<Rightarrow> fnum \<Rightarrow> fnum" where
  "fdiv (Fin a) (Fin b) =
     (if b = 0 then (if a = 0 then NaN else if 0 < a then PInf else NInf) else ovf (a / b))"
| "fdiv (Fin a) PInf = Fin 0"
| "fdiv (Fin a) NInf = Fin 0"
| "fdiv PInf (Fin b) = (if 0 \<le> b then PInf else NInf)"
| "fdiv NInf (Fin b) = (if 0 \<le> b then NInf else PInf)"
| "fdiv PInf PInf = NaN"
| "fdiv PInf NInf = NaN"
| "fdiv NInf PInf = NaN"
| "fdiv NInf NInf = NaN"
| "fdiv NaN b = NaN"
| "fdiv a NaN = NaN"

fun fexp :: "fnum \<Rightarrow> fnum" where
  "fexp (Fin a) = ovf (exp a)"
| "fexp PInf = PInf"
| "fexp NInf = Fin 0"
| "fexp NaN = NaN"

text \<open>The maximum propagates not-a-number.\<close>

fun fmax :: "fnum \<Rightarrow> fnum \<Rightarrow> fnum" where
  "fmax (Fin a) (Fin b) = Fin (max a b)"
| "fmax (Fin a) PInf = PInf"
| "fmax (Fin a) NInf = Fin a"
| "fmax PInf (Fin b) = PInf"
| "fmax PInf PInf = PInf"
| "fmax PInf NInf = PInf"
| "fmax NInf (Fin b) = Fin b"
| "fmax NInf PInf = PInf"
| "fmax NInf NInf = NInf"
| "fmax NaN b = NaN"
| "fmax a NaN = NaN"

fun leaky_relu_fp :: "fnum \<Rightarrow> real \<Rightarrow> fnum" where
  "leaky_relu_fp (Fin v) slope = (if 0 \<le> v then Fin v else ovf (slope * v))"
| "leaky_relu_fp PInf slope = PInf"
| "leaky_relu_fp NInf slope = (if 0 < slope then NInf else if slope < 0 then PInf else NaN)"
| "leaky_relu_fp NaN slope = NaN"

text \<open>A sum adds its terms one after the other.\<close>

definition fsum :: "fnum list \<Rightarrow> fnum" where
  "fsum vs = foldl fadd (Fin 0) vs"

definition shape3_fp :: "f3 \<Rightarrow> nat \<Rightarrow> nat \<Rightarrow> nat \<Rightarrow> bool" where
  "shape3_fp a E D H \<longleftrightarrow>
     length a = E \<and> list_all (\<lambda>blk. length blk = D \<and> list_all (\<lambda>row. length row = H) blk) a"

definition add3_fp :: "f3 \<Rightarrow> f3 \<Rightarrow> f3" where
  "add3_fp a b = map2 (map2 (map2 fadd)) a b"

definition mean_dim1_fp :: "f3 \<Rightarrow> f3" where
  "mean_dim1_fp a =
     map (\<lambda>blk. [map (\<lambda>h. fdiv (fsum (map (\<lambda>row. row ! h) blk)) (Fin (real (length blk))))
                   [0..<(case blk of [] \<Rightarrow> 0 | row # _ \<Rightarrow> length row)]]) a"

text \<open>
  Modelled from the spec: \<open>softmax\<close> is a function of the graph library, not of the
  source file. The same steps as \<open>softmax\<close> above, on the numbers of the program:
  the maximum of the group is subtracted, the result is exponentiated and divided by the
  sum of the group's exponentials.
\<close>

definition group_fp :: "f3 \<Rightarrow> nat list \<Rightarrow> nat \<Rightarrow> nat \<Rightarrow> nat \<Rightarrow> fnum list" where
  "group_fp src index i d h =
     map (\<lambda>(blk, k). blk ! d ! h) (filter (\<lambda>(blk, k). k = i) (zip src index))"

definition softmax_fp :: "f3 \<Rightarrow> nat list \<Rightarrow> f3" where
  "softmax_fp src index =
     map (\<lambda>(blk, i).
        map (\<lambda>d. map (\<lambda>h.
          (let g = group_fp src index i d h; m = fold fmax g (blk ! d ! h)
           in fdiv (fexp (fsub (blk ! d ! h) m)) (fsum (map (\<lambda>v. fexp (fsub v m)) g))))
          [0..<length (blk ! d)]) [0..<length blk])
       (zip src index)"

definition F_dropout_fp ::
  "f3 \<Rightarrow> real \<Rightarrow> bool \<Rightarrow> (nat \<Rightarrow> nat \<Rightarrow> nat \<Rightarrow> real) \<Rightarrow> error + f3" where
  "F_dropout_fp a p tr u =
     (if p < 0 \<or> 1 < p then Inl ValueError
      else if \<not> tr then Inr a
      else Inr (map (\<lambda>(e, blk). map (\<lambda>(d, row). map (\<lambda>(h, v).
                   if p \<le> u e d h then fdiv v (Fin (1 - p)) else Fin 0)
                 (zip [0..<length row] row)) (zip [0..<length blk] blk))
               (zip [0..<length a] a)))"

text \<open>
  \<open>edge_update\<close> (lines 140 to 152) on the numbers of the program: the same steps as
  \<open>edge_update\<close> above, with the arithmetic that overflows.
\<close>

definition edge_update_fp ::
  "GATConv \<Rightarrow> f3 \<Rightarrow> f3 option \<Rightarrow> attr option \<Rightarrow> nat list \<Rightarrow> (nat \<Rightarrow> nat \<Rightarrow> nat \<Rightarrow> real)
     \<Rightarrow> error + f3" where
  "edge_update_fp L alpha_j alpha_i edge_attr index u =
     (case alpha_i of
        None \<Rightarrow> Inl TypeError
      | Some a_i \<Rightarrow>
          (let alpha = mean_dim1_fp (add3_fp alpha_j a_i) in
           if length index = 0 then Inr alpha
           else
             (let alpha1 = map (map (map (\<lambda>v. leaky_relu_fp v (negative_slope L)))) alpha;
                  alpha2 = softmax_fp alpha1 index
              in F_dropout_fp alpha2 (dropout L) (training L) u)))"

text \<open>
  The scores of the edges after lines 145 and 149, which the softmax of line 150
  normalises.
\<close>

definition scores_fp :: "GATConv \<Rightarrow> f3 \<Rightarrow> f3 \<Rightarrow> f3" where
  "scores_fp L alpha_j alpha_i =
     map (map (map (\<lambda>v. leaky_relu_fp v (negative_slope L))))
       (mean_dim1_fp (add3_fp alpha_j alpha_i))"

section \<open>The caller's objects\<close>

text \<open>
  An edge index and edge attributes are objects that the caller holds by reference. The
  store is the list of these objects, a reference is a position in it, and a new object
  is put at the end. A call of the library reads the objects of its arguments and returns
  new objects; \<open>forward\<close> has no statement that writes into an object.
\<close>

datatype 's obj = AdjObj "'s adj" | AttrObj attr

type_synonym 's store = "'s obj list"

definition alloc :: "'s store \<Rightarrow> 's obj \<Rightarrow> 's store \<times> nat" where
  "alloc h v = (h @ [v], length h)"

definition adj_at :: "'s store \<Rightarrow> nat \<Rightarrow> 's adj option" where
  "adj_at h r =
     (if r < length h then (case h ! r of AdjObj a \<Rightarrow> Some a | AttrObj a \<Rightarrow> None) else None)"

text \<open>The optional attributes: no reference stands for Python's \<open>None\<close>.\<close>

definition attr_at :: "'s store \<Rightarrow> nat option \<Rightarrow> attr option option" where
  "attr_at h r =
     (case r of
        None \<Rightarrow> Some None
      | Some k \<Rightarrow>
          (if k < length h then (case h ! k of AttrObj a \<Rightarrow> Some (Some a) | AdjObj a \<Rightarrow> None)
           else None))"

definition alloc_attr :: "'s store \<Rightarrow> attr option \<Rightarrow> 's store \<times> nat option" where
  "alloc_attr h ea =
     (case ea of
        None \<Rightarrow> (h, None)
      | Some a \<Rightarrow> (let (h', r) = alloc h (AttrObj a) in (h', Some r)))"

text \<open>
  Modelled from the spec: \<open>remove_self_loops\<close> and \<open>add_self_loops\<close> are functions
  of the graph library, not of the source file, and what they do to the objects they are
  given is not in the source. By the spec the edge index given to the layer is never
  mutated in place and a fresh augmented copy is produced: a library call on an adjacency
  and optional attributes reads its arguments and returns new objects, and a failure
  leaves the store as it is.
\<close>

definition call_store ::
  "('s adj \<Rightarrow> attr option \<Rightarrow> error + 's adj \<times> attr option) \<Rightarrow> nat \<Rightarrow> nat option \<Rightarrow> 's store
     \<Rightarrow> (error + nat \<times> nat option) \<times> 's store" where
  "call_store f r_ei r_ea h =
     (case (adj_at h r_ei, attr_at h r_ea) of
        (Some ei, Some ea) \<Rightarrow>
          (case f ei ea of
             Inl e \<Rightarrow> (Inl e, h)
           | Inr (ei', ea') \<Rightarrow>
               (let (h1, r1) = alloc h (AdjObj ei'); (h2, r2) = alloc_attr h1 ea'
                in (Inr (r1, r2), h2)))
      | _ \<Rightarrow> (Inl TypeError, h))"

text \<open>
  Lines 108 to 117 on references: the local names \<open>edge_index\<close> and \<open>edge_attr\<close>
  are bound anew to what the two library calls return.
\<close>

definition self_loops_step_store ::
  "'s sparse_lib \<Rightarrow> GATConv \<Rightarrow> tensor \<Rightarrow> nat \<Rightarrow> nat option \<Rightarrow> (nat \<times> nat) option \<Rightarrow> 's store
     \<Rightarrow> (error + nat \<times> nat option) \<times> 's store" where
  "self_loops_step_store lib L x r_ei r_ea size_pair h =
     (if add_self_loops L then
        (let num_nodes = shape x ! 0;
             num_nodes' = (case size_pair of Some (s0, s1) \<Rightarrow> min s0 s1 | None \<Rightarrow> num_nodes)
         in case call_store (remove_self_loops lib) r_ei r_ea h of
              (Inl e, h1) \<Rightarrow> (Inl e, h1)
            | (Inr (r1, r1a), h1) \<Rightarrow>
                call_store (\<lambda>ei ea. add_self_loops_lib lib ei ea (fill_value L) num_nodes')
                  r1 r1a h1)
      else (Inr (r_ei, r_ea), h))"

text \<open>The result of \<open>forward\<close> with the adjacency given by reference.\<close>

datatype ref_result =
    RefOnlyOut tensor
  | RefWithAttention tensor nat tensor

text \<open>
  Modelled from the spec: \<open>set_sparse_value\<close> is a function of the graph library, not
  of the source file. The sparse adjacency it returns is a new object; any other
  adjacency is handed back by the reference that \<open>forward\<close> holds (lines 130 to 138).
\<close>

definition returned_store ::
  "'s sparse_lib \<Rightarrow> tensor \<Rightarrow> nat \<Rightarrow> 's adj \<Rightarrow> tensor \<Rightarrow> bool option \<Rightarrow> 's store
     \<Rightarrow> ref_result \<times> 's store" where
  "returned_store lib out r_ei edge_index alpha return_attention_weights h =
     (case return_attention_weights of
        Some b \<Rightarrow>
          (case edge_index of
             SparseAdj s \<Rightarrow>
               (let (h1, r1) = alloc h (AdjObj (SparseAdj (set_sparse_value s alpha)))
                in (RefWithAttention out r1 alpha, h1))
           | _ \<Rightarrow> (RefWithAttention out r_ei alpha, h))
      | None \<Rightarrow> (RefOnlyOut out, h))"

text \<open>
  \<open>forward\<close> on references: the same steps as \<open>forward\<close>, with the adjacency and
  the attributes read from the store and the store handed on.
\<close>

definition forward_store ::
  "'s sparse_lib \<Rightarrow> GATConv \<Rightarrow> tensor \<Rightarrow> nat \<Rightarrow> nat option \<Rightarrow> (nat \<times> nat) option
     \<Rightarrow> bool option \<Rightarrow> (nat \<Rightarrow> nat \<Rightarrow> nat \<Rightarrow> real) \<Rightarrow> 's store
     \<Rightarrow> (error + ref_result) \<times> 's store" where
  "forward_store lib L x r_ei r_ea size_pair return_attention_weights u h =
     (let H = heads L; F = out_channels L in
      if dim x \<noteq> 3 then (Inl (AssertionError static_message), h)
      else
        (let x_dim = shape x ! 1 in
         (case lin L x of Inl e \<Rightarrow> (Inl e, h) | Inr y \<Rightarrow>
         (case view4 y x_dim H F of Inl e \<Rightarrow> (Inl e, h) | Inr x' \<Rightarrow>
         (let alpha_src = att_sum (nest4 x') (att_src L) H F;
              alpha_dst = att_sum (nest4 x') (att_dst L) H F
          in
          (case self_loops_step_store lib L x' r_ei r_ea size_pair h of
             (Inl e, h1) \<Rightarrow> (Inl e, h1)
           | (Inr (r1, r1a), h1) \<Rightarrow>
          (case (adj_at h1 r1, attr_at h1 r1a) of
             (Some edge_index', Some edge_attr') \<Rightarrow>
          (case edge_updater lib L edge_index' (alpha_src, alpha_dst) edge_attr' u of
             Inl e \<Rightarrow> (Inl e, h1)
           | Inr alpha \<Rightarrow>
          (case propagate lib edge_index' x' alpha size_pair of
             Inl e \<Rightarrow> (Inl e, h1)
           | Inr out \<Rightarrow>
          (case combine_heads L out x_dim of
             Inl e \<Rightarrow> (Inl e, h1)
           | Inr out' \<Rightarrow>
               (let (res, h2) = returned_store lib out' r1 edge_index'
                      (Tensor [length alpha, 1, H] (concat (concat alpha)))
                      return_attention_weights h1
                in (Inr res, h2)))))
           | _ \<Rightarrow> (Inl TypeError, h1))))))))"

text \<open>What a result by reference stands for in a store.\<close>

definition deref :: "'s store \<Rightarrow> ref_result \<Rightarrow> 's forward_result option" where
  "deref h res =
     (case res of
        RefOnlyOut out \<Rightarrow> Some (OnlyOut out)
      | RefWithAttention out r alpha \<Rightarrow>
          (case adj_at h r of Some ei \<Rightarrow> Some (WithAttention out ei alpha) | None \<Rightarrow> None))"

section \<open>A small graph\<close>

text \<open>
  A sparse library that removes and adds self-loops as the dense functions do and whose
  \<open>SparseTensor\<close> is an edge list with a value tensor, a layer with one head and one
  channel, and three nodes with the features 1, 2 and 3.
\<close>

definition example_lib :: "(edges \<times> tensor) sparse_lib" where
  "example_lib =
     \<lparr> remove_self_loops_sparse =
         (\<lambda>s a. Some (Sparse (sp_layout s) (filter (\<lambda>(j, i). j \<noteq> i) (sp_indices s)) (sp_values s),
                        None)),
       add_self_loops_sparse =
         (\<lambda>s a n. Some (Sparse (sp_layout s) (sp_indices s @ map (\<lambda>i. (i, i)) [0..<n]) (sp_values s),
                          None)),
       to_edge_index = fst,
       remove_self_loops_tensor =
         (\<lambda>t a. Some ((filter (\<lambda>(j, i). j \<noteq> i) (fst t), snd t), None)),
       add_self_loops_tensor =
         (\<lambda>t a n. Some ((fst t @ map (\<lambda>i. (i, i)) [0..<n], snd t), None)) \<rparr>"

definition example_layer :: GATConv where
  "example_layer =
     \<lparr> in_channels = 1, out_channels = 1, heads = 1, concat_heads = True,
       negative_slope = 1 / 5, dropout = 0, add_self_loops = True,
       fill_value = (\<lambda>es a n. replicate n [1]), training = False,
       lin_weight = (\<lambda>k c. 2), att_src = (\<lambda>h f. 1), att_dst = (\<lambda>h f. 1) \<rparr>"

definition example_x :: tensor where
  "example_x = Tensor [3, 1, 1] [1, 2, 3]"

definition no_draws :: "nat \<Rightarrow> nat \<Rightarrow> nat \<Rightarrow> real" where
  "no_draws e d h = 0"

definition all_draws :: "nat \<Rightarrow> nat \<Rightarrow> nat \<Rightarrow> real" where
  "all_draws e d h = 1 / 2"

text \<open>The same layer with two heads that are averaged.\<close>

definition example_layer2 :: GATConv where
  "example_layer2 = example_layer \<lparr> heads := 2, concat_heads := False \<rparr>"

text \<open>A store that holds one edge index, with a self-loop at node 0.\<close>

definition example_store :: "(edges \<times> tensor) store" where
  "example_store = [AdjObj (EdgeIndex [(0, 0), (0, 1), (1, 2)])]"

text \<open>The first layer without self-loops.\<close>

definition example_layer3 :: GATConv where
  "example_layer3 = example_layer \<lparr> add_self_loops := False \<rparr>"

text \<open>
  Logits of two edges into node 0, with two rows and one head: the source-side logits,
  and the destination-side logits, all zero.
\<close>

definition example_alpha_j :: t3 where
  "example_alpha_j = [[[0], [2]], [[0], [0]]]"

definition example_alpha_i :: t3 where
  "example_alpha_i = [[[0], [0]], [[0], [0]]]"

text \<open>Three nodes with two rows of one feature each.\<close>

definition example_x2 :: tensor where
  "example_x2 = Tensor [3, 2, 1] [1, 2, 3, 4, 5, 6]"

text \<open>
  Two heads with different weights, so that the heads of a node differ: feature \<open>k\<close>
  of the projection is \<open>k + 1\<close> times the input. The heads are averaged in the first
  layer and concatenated in the second.
\<close>

definition example_layer4 :: GATConv where
  "example_layer4 =
     example_layer \<lparr> heads := 2, concat_heads := False, lin_weight := (\<lambda>k c. real (Suc k)) \<rparr>"

definition example_layer5 :: GATConv where
  "example_layer5 = example_layer4 \<lparr> concat_heads := True \<rparr>"



section \<open>Evaluation and the structure of a successful pass\<close>

lemmas eval_defs =
  forward_def dim_def Let_def lin_def view4_def nest4_def att_sum_def remove_self_loops_def
  add_self_loops_lib_def edge_updater_def edge_list_def edge_update_def add3_def
  mean_dim1_def leaky_relu_def softmax_def group_def F_dropout_def propagate_def
  message_def scale_heads_def aggregate_def flatten4_def view3_def numel_def mean_dim2_def
  self_loops_step_def combine_heads_def returned_def set_sparse_value_def

lemma upt_3: "[0..<3] = [0, 1, 2]"
  by (simp add: upt_rec)

lemma upt_2: "[0..<2] = [0, 1]"
  by (simp add: upt_rec)

lemma upt_6: "[0..<6] = [0, 1, 2, 3, 4, 5]"
  by (simp add: upt_rec)

lemma forward_Inr:
  assumes "forward lib L x edge_index edge_attr size_pair raw u = Inr r"
  shows "\<exists>y x' ei ea alpha out out'.
     dim x = 3 \<and> lin L x = Inr y
     \<and> view4 y (shape x ! 1) (heads L) (out_channels L) = Inr x'
     \<and> self_loops_step lib L x' edge_index edge_attr size_pair = Inr (ei, ea)
     \<and> edge_updater lib L ei
           (att_sum (nest4 x') (att_src L) (heads L) (out_channels L),
            att_sum (nest4 x') (att_dst L) (heads L) (out_channels L)) ea u = Inr alpha
     \<and> propagate lib ei x' alpha size_pair = Inr out
     \<and> combine_heads L out (shape x ! 1) = Inr out'
     \<and> r = returned lib out' ei (Tensor [length alpha, 1, heads L] (concat (concat alpha))) raw"
  using assms unfolding forward_def Let_def
  by (auto split: sum.splits if_splits prod.splits)

section \<open>The rank assertion\<close>

lemma lin_no_assertion: "lin L x \<noteq> Inl (AssertionError m)"
  by (simp add: lin_def)

lemma view4_no_assertion: "view4 t a b c \<noteq> Inl (AssertionError m)"
  by (simp add: view4_def)

lemma view3_no_assertion: "view3 t a b \<noteq> Inl (AssertionError m)"
  by (simp add: view3_def)

lemma remove_self_loops_no_assertion: "remove_self_loops lib a b \<noteq> Inl (AssertionError m)"
  by (auto simp: remove_self_loops_def split: adj.splits option.splits prod.splits)

lemma add_self_loops_no_assertion: "add_self_loops_lib lib a b f n \<noteq> Inl (AssertionError m)"
  by (auto simp: add_self_loops_lib_def split: adj.splits option.splits prod.splits)

lemma self_loops_step_no_assertion:
  "self_loops_step lib L x a b s \<noteq> Inl (AssertionError m)"
  by (auto simp: self_loops_step_def Let_def remove_self_loops_no_assertion
        add_self_loops_no_assertion split: sum.splits prod.splits)

lemma F_dropout_no_assertion: "F_dropout a p t u \<noteq> Inl (AssertionError m)"
  by (simp add: F_dropout_def)

lemma edge_update_no_assertion: "edge_update L a b c d u \<noteq> Inl (AssertionError m)"
  by (auto simp: edge_update_def Let_def F_dropout_no_assertion split: option.splits)

lemma edge_updater_no_assertion: "edge_updater lib L a b c u \<noteq> Inl (AssertionError m)"
  by (simp add: edge_updater_def Let_def edge_update_no_assertion)

lemma propagate_no_assertion: "propagate lib a x al s \<noteq> Inl (AssertionError m)"
  by (auto simp: propagate_def Let_def split: option.splits)

lemma combine_heads_no_assertion: "combine_heads L out d \<noteq> Inl (AssertionError m)"
  by (simp add: combine_heads_def view3_no_assertion)

text \<open>
  C5. An input \<open>x\<close> whose rank is not 3, the rank-2 form among them, makes
  \<open>forward\<close> fail with the assertion error of line 98, whatever the other arguments
  are: nothing is computed and nothing is reshaped before. For a rank-3 \<open>x\<close> that
  assertion does not fire.
\<close>

theorem forward_rank_assertion:
  "(dim x \<noteq> 3 \<longrightarrow>
      forward lib L x edge_index edge_attr size_pair raw u
        = Inl (AssertionError static_message))
   \<and> (dim x = 3 \<longrightarrow>
      forward lib L x edge_index edge_attr size_pair raw u
        \<noteq> Inl (AssertionError static_message))"
proof (intro conjI impI)
  assume "dim x \<noteq> 3"
  then show "forward lib L x edge_index edge_attr size_pair raw u
               = Inl (AssertionError static_message)"
    by (simp add: forward_def)
next
  assume "dim x = 3"
  then show "forward lib L x edge_index edge_attr size_pair raw u
               \<noteq> Inl (AssertionError static_message)"
    unfolding forward_def Let_def
    by (auto simp: lin_no_assertion view4_no_assertion self_loops_step_no_assertion
          edge_updater_no_assertion propagate_no_assertion combine_heads_no_assertion
          split: sum.splits prod.splits)
qed

theorem forward_rank_assertion_witness:
  "dim (Tensor [3, 1] [1, 2, 3]) \<noteq> 3
   \<and> forward example_lib example_layer (Tensor [3, 1] [1, 2, 3]) (EdgeIndex [(0, 1), (1, 2)])
         None None None no_draws = Inl (AssertionError static_message)
   \<and> dim example_x = 3
   \<and> forward example_lib example_layer example_x (EdgeIndex [(0, 1), (1, 2)])
         None None None no_draws \<noteq> Inl (AssertionError static_message)"
  using forward_rank_assertion [of "Tensor [3, 1] [1, 2, 3]" example_lib example_layer
          "EdgeIndex [(0, 1), (1, 2)]" None None None no_draws]
        forward_rank_assertion [of example_x example_lib example_layer
          "EdgeIndex [(0, 1), (1, 2)]" None None None no_draws]
  by (simp add: dim_def example_x_def)

section \<open>Determinism in inference mode\<close>

lemma F_dropout_inference: "\<not> tr \<Longrightarrow> F_dropout a p tr u1 = F_dropout a p tr u2"
  by (simp add: F_dropout_def)

lemma edge_update_inference:
  "\<not> training L \<Longrightarrow> edge_update L aj ai ea index u1 = edge_update L aj ai ea index u2"
  unfolding edge_update_def Let_def
  by (auto split: option.splits intro: F_dropout_inference)

lemma edge_updater_inference:
  "\<not> training L \<Longrightarrow> edge_updater lib L ei al ea u1 = edge_updater lib L ei al ea u2"
  unfolding edge_updater_def Let_def
  using edge_update_inference by auto

text \<open>
  C7. With dropout disabled (\<open>training = False\<close>), two forward passes with the same
  parameters and the same inputs give the same result, whatever the random draws of the
  two passes are: the result is a function of the inputs and the parameters alone.
\<close>

theorem forward_deterministic:
  "\<not> training L \<Longrightarrow>
     forward lib L x edge_index edge_attr size_pair raw u1
       = forward lib L x edge_index edge_attr size_pair raw u2"
  unfolding forward_def Let_def
  using edge_updater_inference [of L lib _ _ _ u1 u2]
  by (auto split: sum.splits prod.splits)

theorem forward_deterministic_witness:
  "\<not> training example_layer
   \<and> forward example_lib example_layer example_x (EdgeIndex [(0, 1), (1, 2)]) None None
        (Some True) no_draws
     = forward example_lib example_layer example_x (EdgeIndex [(0, 1), (1, 2)]) None None
        (Some True) all_draws"
  using forward_deterministic [of example_layer example_lib example_x
          "EdgeIndex [(0, 1), (1, 2)]" None None "Some True" no_draws all_draws]
  by (simp add: example_layer_def)

section \<open>Self-loops\<close>

lemma view_shape:
  assumes "dim x = 3" and "lin L x = Inr y" and "view4 y (shape x ! 1) H F = Inr x'"
    and "H = heads L" and "F = out_channels L"
  shows "shape x' = [shape x ! 0, shape x ! 1, H, F]"
proof -
  obtain a b c where s: "shape x = [a, b, c]"
    using assms(1) unfolding dim_def
    by (metis length_0_conv length_Suc_conv numeral_3_eq_3)
  have y: "shape y = [a, b, H * F]"
    using assms(2,4,5) s by (auto simp: lin_def split: if_splits)
  have nz: "b * H * F \<noteq> 0"
    using assms(3) s by (auto simp: view4_def split: if_splits)
  have "numel y div (b * H * F) = a"
    using nz y by (simp add: numel_def mult.assoc)
  then show ?thesis
    using assms(3) s by (auto simp: view4_def split: if_splits)
qed

lemma self_loops_step_dense:
  assumes "add_self_loops L"
    and "self_loops_step lib L x' (EdgeIndex es) edge_attr size_pair = Inr (ei, ea)"
  shows "ei = EdgeIndex (filter (\<lambda>(j, i). j \<noteq> i) es @ map (\<lambda>i. (i, i))
           [0..<(case size_pair of None \<Rightarrow> shape x' ! 0 | Some (s0, s1) \<Rightarrow> min s0 s1)])"
  using assms
  unfolding self_loops_step_def Let_def remove_self_loops_def add_self_loops_lib_def
  by (auto split: option.splits if_splits prod.splits)

lemma returned_dense:
  "returned lib out (EdgeIndex es) al (Some b) = WithAttention out (EdgeIndex es) al"
  by (simp add: returned_def)

lemma forward_dense_edges:
  assumes "add_self_loops L"
    and "forward lib L x (EdgeIndex es) edge_attr size_pair (Some b) u
           = Inr (WithAttention out ei al)"
  shows "ei = EdgeIndex (filter (\<lambda>(j, i). j \<noteq> i) es @ map (\<lambda>i. (i, i))
           [0..<(case size_pair of None \<Rightarrow> shape x ! 0 | Some (s0, s1) \<Rightarrow> min s0 s1)])"
proof -
  from forward_Inr [OF assms(2)] obtain y x' ei' ea alpha out0 out' where
    d: "dim x = 3" and l: "lin L x = Inr y"
    and v: "view4 y (shape x ! 1) (heads L) (out_channels L) = Inr x'"
    and s: "self_loops_step lib L x' (EdgeIndex es) edge_attr size_pair = Inr (ei', ea)"
    and r: "WithAttention out ei al
              = returned lib out' ei'
                  (Tensor [length alpha, 1, heads L] (concat (concat alpha))) (Some b)"
    by blast
  have sh: "shape x' ! 0 = shape x ! 0"
    using view_shape [OF d l v] by simp
  have e: "ei' = EdgeIndex (filter (\<lambda>(j, i). j \<noteq> i) es @ map (\<lambda>i. (i, i))
           [0..<(case size_pair of None \<Rightarrow> shape x ! 0 | Some (s0, s1) \<Rightarrow> min s0 s1)])"
    using self_loops_step_dense [OF assms(1) s] unfolding sh by simp
  show ?thesis
    using r unfolding e returned_dense by simp
qed

lemma count_loops:
  "count_list (filter (\<lambda>(j, i). j \<noteq> i) es @ map (\<lambda>i. (i, i)) [0..<n]) (k, k)
     = (if k < n then 1 else 0)"
proof -
  have a: "count_list (filter (\<lambda>(j, i). j \<noteq> i) es) (k, k) = 0"
    by (induction es) auto
  have b: "count_list (map (\<lambda>i. (i, i)) [0..<n]) (k, k) = (if k < n then 1 else 0)"
    by (induction n) auto
  show ?thesis
    using a b by simp
qed

lemma non_loops_kept:
  "filter (\<lambda>(j, i). j \<noteq> i) (filter (\<lambda>(j, i). j \<noteq> i) es @ map (\<lambda>i. (i, i)) [0..<n])
     = filter (\<lambda>(j, i). j \<noteq> i) es"
  by (induction n) auto

lemma forward_example_loop:
  "forward example_lib example_layer example_x (EdgeIndex [(0, 0), (0, 1), (1, 2)])
        None None (Some True) no_draws
      = Inr (WithAttention
          (Tensor [3, 1, 1]
             [2, (2 * exp (- 2) + 4) / (exp (- 2) + 1), (4 * exp (- 2) + 6) / (exp (- 2) + 1)])
          (EdgeIndex [(0, 1), (1, 2), (0, 0), (1, 1), (2, 2)])
          (Tensor [5, 1, 1]
             [exp (- 2) / (exp (- 2) + 1), exp (- 2) / (exp (- 2) + 1), 1,
              1 / (exp (- 2) + 1), 1 / (exp (- 2) + 1)]))"
  by (simp add: eval_defs example_layer_def example_x_def upt_3 add_divide_distrib
        mult.commute)

text \<open>
  C2. With \<open>add_self_loops\<close>, a successful \<open>forward\<close> on a dense edge index hands
  back (when the attention weights are returned) the edges without their self-loops,
  followed by one self-loop for each node index below the node count; the node count is
  the first dimension of \<open>x\<close>, or the smaller entry of \<open>size\<close> when one is given.
  So each index below the count has exactly one self-loop, no index from the count on has
  one, and the other edges are the caller's.
\<close>

theorem forward_self_loops:
  assumes "add_self_loops L"
    and "forward lib L x (EdgeIndex es) edge_attr size_pair (Some b) u
           = Inr (WithAttention out ei al)"
  shows "\<exists>es'. ei = EdgeIndex es'
     \<and> es' = filter (\<lambda>(j, i). j \<noteq> i) es @ map (\<lambda>i. (i, i))
           [0..<(case size_pair of None \<Rightarrow> shape x ! 0 | Some (s0, s1) \<Rightarrow> min s0 s1)]
     \<and> (\<forall>k. count_list es' (k, k) =
            (if k < (case size_pair of None \<Rightarrow> shape x ! 0 | Some (s0, s1) \<Rightarrow> min s0 s1)
             then 1 else 0))
     \<and> filter (\<lambda>(j, i). j \<noteq> i) es' = filter (\<lambda>(j, i). j \<noteq> i) es"
  using forward_dense_edges [OF assms] count_loops non_loops_kept by simp

lemma forward_example_bipartite:
  "forward example_lib example_layer example_x (EdgeIndex [(2, 1)])
        None (Some (3, 2)) (Some True) no_draws
      = Inr (WithAttention
          (Tensor [2, 1, 1] [2, (6 + 4 * exp (- 2)) / (1 + exp (- 2))])
          (EdgeIndex [(2, 1), (0, 0), (1, 1)])
          (Tensor [3, 1, 1] [1 / (1 + exp (- 2)), 1, exp (- 2) / (1 + exp (- 2))]))"
  by (simp add: eval_defs example_layer_def example_x_def upt_3 upt_2 add_divide_distrib
        mult.commute add.commute)

theorem forward_self_loops_witness:
  "add_self_loops example_layer
   \<and> forward example_lib example_layer example_x (EdgeIndex [(0, 0), (0, 1), (1, 2)])
        None None (Some True) no_draws
      = Inr (WithAttention
          (Tensor [3, 1, 1]
             [2, (2 * exp (- 2) + 4) / (exp (- 2) + 1), (4 * exp (- 2) + 6) / (exp (- 2) + 1)])
          (EdgeIndex [(0, 1), (1, 2), (0, 0), (1, 1), (2, 2)])
          (Tensor [5, 1, 1]
             [exp (- 2) / (exp (- 2) + 1), exp (- 2) / (exp (- 2) + 1), 1,
              1 / (exp (- 2) + 1), 1 / (exp (- 2) + 1)]))
   \<and> [(0, 1), (1, 2), (0, 0), (1, 1), (2::nat, 2::nat)]
      = filter (\<lambda>(j, i). j \<noteq> i) [(0, 0), (0, 1), (1, 2)]
          @ map (\<lambda>i. (i, i)) [0..<shape example_x ! 0]
   \<and> count_list [(0, 1), (1, 2), (0, 0), (1, 1), (2::nat, 2::nat)] (0, 0) = 1
   \<and> count_list [(0, 1), (1, 2), (0, 0), (1, 1), (2::nat, 2::nat)] (3, 3) = 0
   \<and> forward example_lib example_layer example_x (EdgeIndex [(2, 1)])
        None (Some (3, 2)) (Some True) no_draws
      = Inr (WithAttention
          (Tensor [2, 1, 1] [2, (6 + 4 * exp (- 2)) / (1 + exp (- 2))])
          (EdgeIndex [(2, 1), (0, 0), (1, 1)])
          (Tensor [3, 1, 1] [1 / (1 + exp (- 2)), 1, exp (- 2) / (1 + exp (- 2))]))
   \<and> [(2, 1), (0, 0), (1::nat, 1::nat)]
      = filter (\<lambda>(j, i). j \<noteq> i) [(2, 1)] @ map (\<lambda>i. (i, i)) [0..<min 3 2]"
proof -
  have a: "add_self_loops example_layer"
    by (simp add: example_layer_def)
  note f = forward_example_loop
  from forward_self_loops [OF a f] obtain es' where
    "EdgeIndex [(0, 1), (1, 2), (0, 0), (1, 1), (2::nat, 2::nat)] = EdgeIndex es'"
    "es' = filter (\<lambda>(j, i). j \<noteq> i) [(0, 0), (0, 1), (1, 2)]
             @ map (\<lambda>i. (i, i)) [0..<shape example_x ! 0]"
    by auto
  then have g: "[(0, 1), (1, 2), (0, 0), (1, 1), (2::nat, 2::nat)]
      = filter (\<lambda>(j, i). j \<noteq> i) [(0, 0), (0, 1), (1, 2)]
          @ map (\<lambda>i. (i, i)) [0..<shape example_x ! 0]"
    by simp
  have c1: "count_list [(0, 1), (1, 2), (0, 0), (1, 1), (2::nat, 2::nat)] (0, 0) = 1"
    by simp
  have c2: "count_list [(0, 1), (1, 2), (0, 0), (1, 1), (2::nat, 2::nat)] (3, 3) = 0"
    by simp
  note f2 = forward_example_bipartite
  from forward_self_loops [OF a f2] obtain es2 where
    "EdgeIndex [(2, 1), (0, 0), (1::nat, 1::nat)] = EdgeIndex es2"
    "es2 = filter (\<lambda>(j, i). j \<noteq> i) [(2, 1)] @ map (\<lambda>i. (i, i)) [0..<min 3 2]"
    by auto
  then have g2: "[(2, 1), (0, 0), (1::nat, 1::nat)]
      = filter (\<lambda>(j, i). j \<noteq> i) [(2, 1)] @ map (\<lambda>i. (i, i)) [0..<min 3 2]"
    by simp
  show ?thesis
    by (intro conjI a f g c1 c2 f2 g2)
qed

lemma forward_example_x2:
  "forward example_lib example_layer example_x2 (EdgeIndex []) None None (Some True) no_draws
     = Inr (WithAttention (Tensor [3, 2, 1] [2, 4, 6, 8, 10, 12])
          (EdgeIndex [(0, 0), (1, 1), (2, 2)]) (Tensor [3, 1, 1] [1, 1, 1]))"
  by (simp add: eval_defs example_layer_def example_x2_def upt_3 upt_2 upt_6)

text \<open>
  C10. With \<open>add_self_loops\<close> and no explicit \<open>size\<close>, the self-loops that
  \<open>forward\<close> adds are one for each index below the first dimension of the rank-3
  input \<open>x\<close>; the second dimension of \<open>x\<close> plays no part.
\<close>

theorem forward_num_nodes_first_dim:
  assumes "add_self_loops L"
    and "forward lib L x (EdgeIndex es) edge_attr None (Some b) u
           = Inr (WithAttention out ei al)"
  shows "ei = EdgeIndex (filter (\<lambda>(j, i). j \<noteq> i) es
                          @ map (\<lambda>i. (i, i)) [0..<shape x ! 0])"
  using forward_dense_edges [OF assms] by simp

theorem forward_num_nodes_first_dim_witness:
  "add_self_loops example_layer
   \<and> shape example_x2 = [3, 2, 1]
   \<and> forward example_lib example_layer example_x2 (EdgeIndex []) None None (Some True) no_draws
     = Inr (WithAttention (Tensor [3, 2, 1] [2, 4, 6, 8, 10, 12])
          (EdgeIndex [(0, 0), (1, 1), (2, 2)]) (Tensor [3, 1, 1] [1, 1, 1]))
   \<and> EdgeIndex [(0, 0), (1, 1), (2::nat, 2::nat)]
     = (EdgeIndex (filter (\<lambda>(j, i). j \<noteq> i) [] @ map (\<lambda>i. (i, i)) [0..<shape example_x2 ! 0])
          :: (edges \<times> tensor) adj)"
proof -
  have a: "add_self_loops example_layer"
    by (simp add: example_layer_def)
  have s: "shape example_x2 = [3, 2, 1]"
    by (simp add: example_x2_def)
  note f = forward_example_x2
  note g = forward_num_nodes_first_dim [OF a f]
  show ?thesis
    by (intro conjI a s f g)
qed

section \<open>The attention coefficients of \<open>edge_update\<close>\<close>

lemma fold_max_member:
  fixes v :: real
  assumes "v \<in> set g"
  shows "fold max g v = Max (set g)"
proof -
  have "Max (set (v # g)) = fold max g v" by (rule Max.set_eq_fold)
  moreover have "set (v # g) = set g" using assms by auto
  ultimately show ?thesis by simp
qed

lemma zip_map_zip:
  "length a = length index \<Longrightarrow>
     zip (map f (zip a index)) index = map (\<lambda>p. (f p, snd p)) (zip a index)"
  by (induction a index rule: list_induct2) auto

lemma sum_exp_pos:
  fixes \<psi> :: "'a \<Rightarrow> real"
  shows "ps \<noteq> [] \<Longrightarrow> 0 < (\<Sum>p\<leftarrow>ps. exp (\<psi> p - M))"
proof (cases ps)
  case Nil
  then show "ps \<noteq> [] \<Longrightarrow> ?thesis" by simp
next
  case (Cons q qs)
  have "0 \<le> (\<Sum>p\<leftarrow>qs. exp (\<psi> p - M))"
    by (rule sum_list_nonneg) auto
  then show ?thesis using Cons by (simp add: add_pos_nonneg)
qed

lemma sum_list_divide:
  fixes c :: "'a \<Rightarrow> real"
  shows "(\<Sum>p\<leftarrow>ps. c p / S) = (\<Sum>p\<leftarrow>ps. c p) / S"
  by (induction ps) (auto simp: add_divide_distrib)

lemma softmax_group_sum:
  assumes sh: "shape3 a (length index) D H"
    and i: "i \<in> set index" and d: "d < D" and h: "h < H"
  shows "sum_list (group (softmax a index) index i d h) = 1"
proof -
  define ps where "ps = filter (\<lambda>p. snd p = i) (zip a index)"
  define \<psi> where "\<psi> = (\<lambda>p :: real list list \<times> nat. fst p ! d ! h)"
  define g where "g = group a index i d h"
  define M where "M = Max (set g)"
  define S where "S = (\<Sum>v\<leftarrow>g. exp (v - M))"
  have len: "length a = length index" using sh by (simp add: shape3_def)
  have g_eq: "g = map \<psi> ps"
    unfolding g_def group_def ps_def \<psi>_def
    by (simp add: case_prod_unfold)
  have ps_ne: "ps \<noteq> []"
  proof -
    from i obtain n where n: "n < length index" "index ! n = i"
      by (auto simp: in_set_conv_nth)
    then have "(a ! n, i) \<in> set (zip a index)"
      using len by (auto simp: in_set_zip)
    then have "(a ! n, i) \<in> set ps" by (simp add: ps_def)
    then show ?thesis by auto
  qed
  have shp: "length (fst p) = D \<and> length (fst p ! d) = H" if "p \<in> set ps" for p
  proof -
    have "p \<in> set (zip a index)" using that by (simp add: ps_def)
    then have "(fst p, snd p) \<in> set (zip a index)" by simp
    then have "fst p \<in> set a" by (rule set_zip_leftD)
    then have "length (fst p) = D \<and> list_all (\<lambda>row. length row = H) (fst p)"
      using sh by (auto simp: shape3_def list_all_iff)
    then show ?thesis using d by (auto simp: list_all_length)
  qed
  let ?f = "\<lambda>(blk, k). map (\<lambda>d. map (\<lambda>h.
          (let g = group a index k d h; m = fold max g (blk ! d ! h)
           in exp (blk ! d ! h - m) / (\<Sum>v\<leftarrow>g. exp (v - m))))
          [0..<length (blk ! d)]) [0..<length blk]"
  have sm: "softmax a index = map ?f (zip a index)"
    by (simp add: softmax_def)
  have grp: "group (softmax a index) index i d h = map (\<lambda>p. ?f p ! d ! h) ps"
    unfolding group_def sm zip_map_zip[OF len] ps_def
    by (simp add: filter_map o_def case_prod_unfold)
  have tm: "?f p ! d ! h = exp (\<psi> p - M) / S" if "p \<in> set ps" for p
  proof -
    obtain blk k where p: "p = (blk, k)" by (cases p)
    have k: "k = i" using that p by (simp add: ps_def)
    have mem: "blk ! d ! h \<in> set g"
      using that p unfolding g_eq \<psi>_def by force
    have "fold max g (blk ! d ! h) = M"
      unfolding M_def by (rule fold_max_member[OF mem])
    then show ?thesis
      using shp[OF that] d h p k
      by (simp add: g_def[symmetric] S_def \<psi>_def Let_def)
  qed
  have "map (\<lambda>p. ?f p ! d ! h) ps = map (\<lambda>p. exp (\<psi> p - M) / S) ps"
    by (rule map_cong [OF refl]) (rule tm)
  then have "sum_list (group (softmax a index) index i d h) = (\<Sum>p\<leftarrow>ps. exp (\<psi> p - M) / S)"
    by (simp only: grp)
  also have "\<dots> = (\<Sum>p\<leftarrow>ps. exp (\<psi> p - M)) / S"
    by (rule sum_list_divide)
  also have "(\<Sum>p\<leftarrow>ps. exp (\<psi> p - M)) = S"
    unfolding S_def g_eq by (simp add: o_def)
  also have "S / S = 1"
  proof -
    have "0 < S" unfolding S_def g_eq using sum_exp_pos[OF ps_ne, of \<psi> M] by (simp add: o_def)
    then show ?thesis by simp
  qed
  finally show ?thesis .
qed


lemma shape3_nth:
  assumes "shape3 a E D H" "e < E"
  shows "length (a ! e) = D" and "d < D \<Longrightarrow> length (a ! e ! d) = H"
  using assms by (auto simp: shape3_def list_all_length)

lemma shape3_I:
  assumes "length a = E" "\<And>e. e < E \<Longrightarrow> length (a ! e) = D"
    "\<And>e d. e < E \<Longrightarrow> d < D \<Longrightarrow> length (a ! e ! d) = H"
  shows "shape3 a E D H"
  using assms by (auto simp: shape3_def list_all_length)

lemma add3_nth_e:
  assumes "shape3 aj E D H" "shape3 ai E D H" "e < E"
  shows "add3 aj ai ! e = map2 (map2 (+)) (aj ! e) (ai ! e)"
proof -
  have "length aj = E" "length ai = E" using assms by (simp_all add: shape3_def)
  then show ?thesis using assms(3) by (simp add: add3_def)
qed

lemma add3_nth_d:
  assumes "shape3 aj E D H" "shape3 ai E D H" "e < E" "d < D"
  shows "add3 aj ai ! e ! d = map2 (+) (aj ! e ! d) (ai ! e ! d)"
proof -
  have "length (aj ! e) = D" "length (ai ! e) = D"
    using shape3_nth(1)[OF assms(1,3)] shape3_nth(1)[OF assms(2,3)] by simp_all
  then show ?thesis unfolding add3_nth_e[OF assms(1,2,3)] using assms(4) by simp
qed

lemma add3_nth:
  assumes "shape3 aj E D H" "shape3 ai E D H" "e < E" "d < D" "h < H"
  shows "add3 aj ai ! e ! d ! h = aj ! e ! d ! h + ai ! e ! d ! h"
proof -
  have "length (aj ! e ! d) = H" "length (ai ! e ! d) = H"
    using shape3_nth(2)[OF assms(1,3,4)] shape3_nth(2)[OF assms(2,3,4)] by simp_all
  then show ?thesis unfolding add3_nth_d[OF assms(1,2,3,4)] using assms(5) by simp
qed

lemma add3_shape:
  assumes "shape3 aj E D H" "shape3 ai E D H"
  shows "shape3 (add3 aj ai) E D H"
proof (rule shape3_I)
  show "length (add3 aj ai) = E" using assms by (simp add: add3_def shape3_def)
next
  fix e assume e: "e < E"
  have "length (aj ! e) = D" "length (ai ! e) = D"
    using shape3_nth(1)[OF assms(1) e] shape3_nth(1)[OF assms(2) e] by simp_all
  then show "length (add3 aj ai ! e) = D"
    unfolding add3_nth_e[OF assms e] by simp
next
  fix e d assume e: "e < E" and d: "d < D"
  have "length (aj ! e ! d) = H" "length (ai ! e ! d) = H"
    using shape3_nth(2)[OF assms(1) e d] shape3_nth(2)[OF assms(2) e d] by simp_all
  then show "length (add3 aj ai ! e ! d) = H"
    unfolding add3_nth_d[OF assms e d] by simp
qed

lemma sum_list_nth:
  fixes f :: "'a \<Rightarrow> real"
  shows "(\<Sum>x\<leftarrow>xs. f x) = (\<Sum>d\<leftarrow>[0..<length xs]. f (xs ! d))"
proof -
  have m: "map f xs = map (\<lambda>d. f (xs ! d)) [0..<length xs]"
    by (rule nth_equalityI) simp_all
  show ?thesis by (rule arg_cong [where f = sum_list, OF m])
qed

lemma mean_dim1_shape:
  assumes "shape3 b E D H" "0 < D"
  shows "shape3 (mean_dim1 b) E 1 H"
proof (rule shape3_I)
  show "length (mean_dim1 b) = E" using assms by (simp add: mean_dim1_def shape3_def)
next
  fix e assume "e < E"
  then show "length (mean_dim1 b ! e) = 1"
    using assms by (simp add: mean_dim1_def shape3_def)
next
  fix e d assume e: "e < E" and "d < (1::nat)"
  then have d: "d = 0" by simp
  obtain row rest where r: "b ! e = row # rest"
    using shape3_nth(1)[OF assms(1) e] assms(2) by (cases "b ! e") auto
  have "length row = H" using shape3_nth(2)[OF assms(1) e, of 0] assms(2) r by simp
  then show "length (mean_dim1 b ! e ! d) = H"
    using e assms(1) r d by (simp add: mean_dim1_def shape3_def)
qed

lemma mean_dim1_nth:
  assumes "shape3 b E D H" "0 < D" "e < E" "h < H"
  shows "mean_dim1 b ! e ! 0 ! h = (\<Sum>d\<leftarrow>[0..<D]. b ! e ! d ! h) / real D"
proof -
  obtain row rest where r: "b ! e = row # rest"
    using shape3_nth(1)[OF assms(1,3)] assms(2) by (cases "b ! e") auto
  have H: "length row = H" using shape3_nth(2)[OF assms(1,3), of 0] assms(2) r by simp
  have D: "length (b ! e) = D" by (rule shape3_nth(1)[OF assms(1,3)])
  have "mean_dim1 b ! e ! 0 ! h = (\<Sum>row\<leftarrow>b ! e. row ! h) / real (length (b ! e))"
    using assms(1,3,4) H r by (simp add: mean_dim1_def shape3_def)
  also have "(\<Sum>row\<leftarrow>b ! e. row ! h) = (\<Sum>d\<leftarrow>[0..<length (b ! e)]. b ! e ! d ! h)"
    by (rule sum_list_nth)
  finally show ?thesis unfolding D .
qed

lemma map3_shape:
  assumes "shape3 a E D H"
  shows "shape3 (map (map (map f)) a) E D H"
  using assms by (auto simp: shape3_def list_all_iff)

lemma edge_update_example:
  "edge_update example_layer example_alpha_j (Some example_alpha_i) None [0, 0] no_draws
     = Inr [[[1 / (1 + exp (- 1))]], [[exp (- 1) / (1 + exp (- 1))]]]"
  by (simp add: edge_update_def add3_def mean_dim1_def leaky_relu_def softmax_def group_def
        F_dropout_def Let_def example_layer_def example_alpha_j_def example_alpha_i_def
        upt_2 add.commute)

lemma example_alpha_shapes:
  "shape3 example_alpha_j 2 2 1" "shape3 example_alpha_i 2 2 1"
  by (simp_all add: shape3_def example_alpha_j_def example_alpha_i_def)

text \<open>
  C3, as the claim states it, fails: the raw score of an edge is not the sum of the two
  logits at each position. For two rows per node the code averages the sums over the rows
  (\<open>.mean(dim=1, keepdim=True)\<close>, line 145): the sums \<open>[[0], [2]]\<close> of the first
  edge become the single score \<open>[[1]]\<close>, and the weights that \<open>edge_update\<close>
  returns have one row per edge.
\<close>

theorem edge_update_raw_score_counterexample:
  "add3 example_alpha_j example_alpha_i = [[[0], [2]], [[0], [0]]]
   \<and> mean_dim1 (add3 example_alpha_j example_alpha_i) = [[[1]], [[0]]]
   \<and> edge_update example_layer example_alpha_j (Some example_alpha_i) None [0, 0] no_draws
       = Inr [[[1 / (1 + exp (- 1))]], [[exp (- 1) / (1 + exp (- 1))]]]"
proof (intro conjI)
  show "add3 example_alpha_j example_alpha_i = [[[0], [2]], [[0], [0]]]"
    by (simp add: add3_def example_alpha_j_def example_alpha_i_def)
  show "mean_dim1 (add3 example_alpha_j example_alpha_i) = [[[1]], [[0]]]"
    by (simp add: add3_def mean_dim1_def example_alpha_j_def example_alpha_i_def)
  show "edge_update example_layer example_alpha_j (Some example_alpha_i) None [0, 0] no_draws
       = Inr [[[1 / (1 + exp (- 1))]], [[exp (- 1) / (1 + exp (- 1))]]]"
    by (rule edge_update_example)
qed

text \<open>
  C3, amended. For logits of shape \<open>[E, D, H]\<close> with \<open>D > 0\<close>, the raw score has
  the shape \<open>[E, 1, H]\<close>; for every edge and every head it is the mean over the
  \<open>D\<close> rows of the sum of the source-side and the destination-side logit, with no
  averaging across heads (for \<open>D = 1\<close> it is that sum). \<open>edge_update\<close> returns
  the raw score when there is no edge, and otherwise applies leaky-ReLU with
  \<open>negative_slope\<close> to it, then the softmax over \<open>index\<close> and dropout.
\<close>

theorem edge_update_raw_score:
  assumes "shape3 alpha_j E D H" and "shape3 alpha_i E D H" and "0 < D"
  shows "shape3 (mean_dim1 (add3 alpha_j alpha_i)) E 1 H
    \<and> (\<forall>e<E. \<forall>h<H. mean_dim1 (add3 alpha_j alpha_i) ! e ! 0 ! h
           = (\<Sum>d\<leftarrow>[0..<D]. alpha_j ! e ! d ! h + alpha_i ! e ! d ! h) / real D)
    \<and> edge_update L alpha_j (Some alpha_i) edge_attr index u
        = (if index = [] then Inr (mean_dim1 (add3 alpha_j alpha_i))
           else F_dropout
                  (softmax (map (map (map (\<lambda>v. leaky_relu v (negative_slope L))))
                              (mean_dim1 (add3 alpha_j alpha_i))) index)
                  (dropout L) (training L) u)"
proof (intro conjI allI impI)
  note s = add3_shape[OF assms(1,2)]
  show "shape3 (mean_dim1 (add3 alpha_j alpha_i)) E 1 H"
    by (rule mean_dim1_shape[OF s assms(3)])
  show "edge_update L alpha_j (Some alpha_i) edge_attr index u
        = (if index = [] then Inr (mean_dim1 (add3 alpha_j alpha_i))
           else F_dropout
                  (softmax (map (map (map (\<lambda>v. leaky_relu v (negative_slope L))))
                              (mean_dim1 (add3 alpha_j alpha_i))) index)
                  (dropout L) (training L) u)"
    by (simp add: edge_update_def Let_def)
  fix e h assume e: "e < E" and h: "h < H"
  have "map (\<lambda>d. add3 alpha_j alpha_i ! e ! d ! h) [0..<D]
      = map (\<lambda>d. alpha_j ! e ! d ! h + alpha_i ! e ! d ! h) [0..<D]"
    by (rule map_cong [OF refl]) (simp add: add3_nth[OF assms(1,2) e _ h])
  then show "mean_dim1 (add3 alpha_j alpha_i) ! e ! 0 ! h
           = (\<Sum>d\<leftarrow>[0..<D]. alpha_j ! e ! d ! h + alpha_i ! e ! d ! h) / real D"
    by (simp only: mean_dim1_nth[OF s assms(3) e h])
qed

theorem edge_update_raw_score_witness:
  "shape3 example_alpha_j 2 2 1 \<and> shape3 example_alpha_i 2 2 1 \<and> (0::nat) < 2
   \<and> shape3 (mean_dim1 (add3 example_alpha_j example_alpha_i)) 2 1 1
   \<and> mean_dim1 (add3 example_alpha_j example_alpha_i) ! 0 ! 0 ! 0
       = (\<Sum>d\<leftarrow>[0..<2]. example_alpha_j ! 0 ! d ! 0 + example_alpha_i ! 0 ! d ! 0) / real 2"
proof -
  note t = edge_update_raw_score [OF example_alpha_shapes, of example_layer None "[0, 0]" no_draws]
  have z: "(0::nat) < 2" by simp
  from t [OF z] have a: "shape3 (mean_dim1 (add3 example_alpha_j example_alpha_i)) 2 1 1"
    and b: "\<forall>e<2. \<forall>h<1. mean_dim1 (add3 example_alpha_j example_alpha_i) ! e ! 0 ! h
           = (\<Sum>d\<leftarrow>[0..<2]. example_alpha_j ! e ! d ! h + example_alpha_i ! e ! d ! h) / real 2"
    by blast+
  from b have c: "mean_dim1 (add3 example_alpha_j example_alpha_i) ! 0 ! 0 ! 0
       = (\<Sum>d\<leftarrow>[0..<2]. example_alpha_j ! 0 ! d ! 0 + example_alpha_i ! 0 ! d ! 0) / real 2"
    by simp
  show ?thesis
    by (intro conjI example_alpha_shapes z a c)
qed

text \<open>
  Over exact numbers, in inference mode and for logits of shape \<open>[E, D, H]\<close> with
  \<open>D > 0\<close>, the weights that \<open>edge_update\<close> returns sum to 1 over the edges
  that share a destination node \<open>i\<close>, for each head \<open>h\<close> on its own. This is a
  fact of the exact arithmetic alone: the numbers of the program are floating-point
  numbers, whose sum \<open>alpha_j + alpha_i\<close> leaves the finite range for large logits,
  and what the program returns then is not expressed by the reals. The numbers of the
  program are the subject of the next section.
\<close>

lemma softmax_weights_exact_sum:
  assumes "\<not> training L"
    and "edge_update L alpha_j (Some alpha_i) edge_attr index u = Inr w"
    and "shape3 alpha_j (length index) D H" and "shape3 alpha_i (length index) D H"
    and "0 < D" and "i \<in> set index" and "h < H"
  shows "sum_list (group w index i 0 h) = 1"
proof -
  let ?a = "map (map (map (\<lambda>v. leaky_relu v (negative_slope L))))
              (mean_dim1 (add3 alpha_j alpha_i))"
  have ne: "index \<noteq> []" using assms(6) by auto
  have "F_dropout (softmax ?a index) (dropout L) (training L) u = Inr w"
    using assms(2) ne by (simp add: edge_update_def Let_def)
  then have w: "w = softmax ?a index"
    using assms(1) by (simp add: F_dropout_def split: if_splits)
  have "shape3 ?a (length index) 1 H"
    by (rule map3_shape [OF mean_dim1_shape [OF add3_shape [OF assms(3,4)] assms(5)]])
  then show ?thesis
    unfolding w using softmax_group_sum[of ?a index 1 H i 0 h] assms(6,7) by simp
qed

section \<open>The attention weights of a node sum to one\<close>

lemma float_max_pos: "1 \<le> float_max"
  by (simp add: float_max_def)

lemma ovf_fin: "\<bar>v\<bar> \<le> float_max \<Longrightarrow> ovf v = Fin v"
  by (auto simp: ovf_def)

lemma ovf_unit: "0 \<le> v \<Longrightarrow> v \<le> 2 \<Longrightarrow> ovf v = Fin v"
  by (rule ovf_fin) (simp add: float_max_def)

lemma fmax_assoc: "fmax (fmax a b) c = fmax a (fmax b c)"
  by (cases a; cases b; cases c) (simp_all add: max.assoc)

lemma fmax_commute: "fmax a b = fmax b a"
  by (cases a; cases b) (simp_all add: max.commute)

lemma fmax_idem: "fmax a a = a"
  by (cases a) simp_all

lemma fmax_NInf: "fmax v NInf = v"
  by (cases v) simp_all

lemma fmax_in: "fmax a b = a \<or> fmax a b = b"
  by (cases a; cases b) (auto simp: max_def)

lemma fold_fmax_in: "fold fmax g e \<in> insert e (set g)"
proof (induction g arbitrary: e)
  case Nil
  then show ?case by simp
next
  case (Cons x g)
  have "fold fmax g (fmax x e) \<in> insert (fmax x e) (set g)" by (rule Cons.IH)
  then show ?case using fmax_in [of x e] by auto
qed

lemma fold_fmax_acc: "fold fmax xs (fmax a b) = fmax a (fold fmax xs b)"
proof (induction xs arbitrary: b)
  case Nil
  then show ?case by simp
next
  case (Cons x xs)
  have "fmax x (fmax a b) = fmax a (fmax x b)"
    by (metis fmax_assoc fmax_commute)
  then show ?case using Cons.IH [of "fmax x b"] by simp
qed

lemma fold_fmax_absorb:
  assumes "v \<in> set xs"
  shows "fmax v (fold fmax xs e) = fold fmax xs e"
  using assms
proof (induction xs arbitrary: e)
  case Nil
  then show ?case by simp
next
  case (Cons x xs)
  show ?case
  proof (cases "v = x")
    case True
    have "fmax x (fold fmax xs (fmax x e)) = fmax x (fmax x (fold fmax xs e))"
      by (simp only: fold_fmax_acc)
    also have "\<dots> = fmax x (fold fmax xs e)"
      by (simp only: fmax_assoc [symmetric] fmax_idem)
    also have "\<dots> = fold fmax xs (fmax x e)"
      by (simp only: fold_fmax_acc)
    finally show ?thesis using True by simp
  next
    case False
    then have "v \<in> set xs" using Cons.prems by simp
    from Cons.IH [OF this, of "fmax x e"] show ?thesis by simp
  qed
qed

lemma fold_fmax_member:
  assumes "v \<in> set g"
  shows "fold fmax g v = fold fmax g NInf"
proof -
  have "fold fmax g v = fold fmax g (fmax v NInf)" by (simp only: fmax_NInf)
  also have "\<dots> = fmax v (fold fmax g NInf)" by (rule fold_fmax_acc)
  also have "\<dots> = fold fmax g NInf" by (rule fold_fmax_absorb [OF assms])
  finally show ?thesis .
qed

lemma fsum_fin:
  assumes "\<forall>x\<in>set xs. 0 \<le> x \<and> x \<le> 1" and "0 \<le> acc"
    and "acc + real (length xs) \<le> float_max"
  shows "foldl fadd (Fin acc) (map Fin xs) = Fin (acc + sum_list xs)"
  using assms
proof (induction xs arbitrary: acc)
  case Nil
  then show ?case by simp
next
  case (Cons x xs)
  have x: "0 \<le> x" "x \<le> 1" using Cons.prems(1) by simp_all
  have "\<bar>acc + x\<bar> \<le> float_max" using x Cons.prems(2,3) by simp
  then have a: "fadd (Fin acc) (Fin x) = Fin (acc + x)" by (simp add: ovf_fin)
  have "foldl fadd (Fin (acc + x)) (map Fin xs) = Fin (acc + x + sum_list xs)"
    using Cons.prems x by (intro Cons.IH) simp_all
  then show ?case using a by (simp add: add.assoc)
qed

lemma fsub_NaN: "fsub v NaN = NaN"
  by (cases v) (simp_all add: fsub_def)

lemma fdiv_NaN: "fdiv NaN v = NaN"
  by simp

lemma fexp_below:
  assumes "fmax v (Fin m) = Fin m"
  shows "\<exists>c. fexp (fsub v (Fin m)) = Fin c \<and> 0 \<le> c \<and> c \<le> 1 \<and> (v = Fin m \<longrightarrow> c = 1)"
proof (cases v)
  case (Fin a)
  then have am: "a \<le> m" using assms by (simp add: max_def split: if_splits)
  show ?thesis
  proof (cases "a - m < - float_max")
    case True
    then have "fsub v (Fin m) = NInf"
      using Fin am float_max_pos by (simp add: fsub_def ovf_def)
    moreover have "a \<noteq> m" using True float_max_pos by auto
    ultimately show ?thesis using Fin by simp
  next
    case False
    then have "fsub v (Fin m) = Fin (a - m)"
      using Fin am float_max_pos by (simp add: fsub_def ovf_def)
    moreover have e1: "exp (a - m) \<le> 1" using am by simp
    moreover have "\<bar>exp (a - m)\<bar> \<le> float_max"
      using order_trans [OF e1 float_max_pos] by simp
    ultimately show ?thesis using Fin by (simp add: ovf_fin)
  qed
next
  case PInf
  then show ?thesis using assms by simp
next
  case NInf
  then show ?thesis by (simp add: fsub_def)
next
  case NaN
  then show ?thesis using assms by simp
qed

lemma softmax_fp_group_sum:
  assumes sh: "shape3_fp a (length index) D H"
    and i: "i \<in> set index" and d: "d < D" and h: "h < H"
    and n: "real (length index) \<le> float_max"
    and fin: "list_all is_fin (group_fp (softmax_fp a index) index i d h)
              \<or> list_all is_fin (group_fp a index i d h)"
  shows "\<exists>ws. group_fp (softmax_fp a index) index i d h = map Fin ws \<and> sum_list ws = 1"
proof -
  define ps where "ps = filter (\<lambda>p. snd p = i) (zip a index)"
  define \<psi> where "\<psi> = (\<lambda>p :: fnum list list \<times> nat. fst p ! d ! h)"
  define g where "g = group_fp a index i d h"
  define M where "M = fold fmax g NInf"
  define S where "S = fsum (map (\<lambda>v. fexp (fsub v M)) g)"
  have len: "length a = length index" using sh by (simp add: shape3_fp_def)
  have g_eq: "g = map \<psi> ps"
    unfolding g_def group_fp_def ps_def \<psi>_def
    by (simp add: case_prod_unfold)
  have ps_ne: "ps \<noteq> []"
  proof -
    from i obtain k where k: "k < length index" "index ! k = i"
      by (auto simp: in_set_conv_nth)
    then have "(a ! k, i) \<in> set (zip a index)"
      using len by (auto simp: in_set_zip)
    then have "(a ! k, i) \<in> set ps" by (simp add: ps_def)
    then show ?thesis by auto
  qed
  have lps: "length ps \<le> length index"
  proof -
    have "length ps \<le> length (zip a index)" unfolding ps_def by (rule length_filter_le)
    then show ?thesis by simp
  qed
  have shp: "length (fst p) = D \<and> length (fst p ! d) = H" if "p \<in> set ps" for p
  proof -
    have "p \<in> set (zip a index)" using that by (simp add: ps_def)
    then have "(fst p, snd p) \<in> set (zip a index)" by simp
    then have "fst p \<in> set a" by (rule set_zip_leftD)
    then have "length (fst p) = D \<and> list_all (\<lambda>row. length row = H) (fst p)"
      using sh by (auto simp: shape3_fp_def list_all_iff)
    then show ?thesis using d by (auto simp: list_all_length)
  qed
  let ?f = "\<lambda>(blk, k). map (\<lambda>d. map (\<lambda>h.
          (let g = group_fp a index k d h; m = fold fmax g (blk ! d ! h)
           in fdiv (fexp (fsub (blk ! d ! h) m)) (fsum (map (\<lambda>v. fexp (fsub v m)) g))))
          [0..<length (blk ! d)]) [0..<length blk]"
  have sm: "softmax_fp a index = map ?f (zip a index)"
    by (simp add: softmax_fp_def)
  have grp: "group_fp (softmax_fp a index) index i d h = map (\<lambda>p. ?f p ! d ! h) ps"
    unfolding group_fp_def sm zip_map_zip[OF len] ps_def
    by (simp add: filter_map o_def case_prod_unfold)
  have tm: "?f p ! d ! h = fdiv (fexp (fsub (\<psi> p) M)) S" if "p \<in> set ps" for p
  proof -
    obtain blk k where p: "p = (blk, k)" by (cases p)
    have k: "k = i" using that p by (simp add: ps_def)
    have mem: "blk ! d ! h \<in> set g"
      using that p unfolding g_eq \<psi>_def by force
    have "fold fmax g (blk ! d ! h) = M"
      unfolding M_def by (rule fold_fmax_member[OF mem])
    then show ?thesis
      using shp[OF that] d h p k
      by (simp add: g_def[symmetric] S_def \<psi>_def Let_def)
  qed
  have grp': "group_fp (softmax_fp a index) index i d h
                = map (\<lambda>p. fdiv (fexp (fsub (\<psi> p) M)) S) ps"
    unfolding grp by (rule map_cong [OF refl]) (rule tm)
  have wf: "is_fin (fdiv (fexp (fsub (\<psi> p) M)) S)"
    if "list_all is_fin (group_fp (softmax_fp a index) index i d h)" and "p \<in> set ps" for p
    using that unfolding grp' by (simp add: list_all_iff)
  have sf: "is_fin (\<psi> p)" if "list_all is_fin (group_fp a index i d h)" and "p \<in> set ps" for p
    using that unfolding g_def [symmetric] g_eq by (simp add: list_all_iff)
  obtain p0 where p0: "p0 \<in> set ps" using ps_ne by (cases ps) auto
  have Min: "M \<in> insert NInf (set g)" unfolding M_def by (rule fold_fmax_in)
  have absorb: "fmax v M = M" if "v \<in> set g" for v
    unfolding M_def by (rule fold_fmax_absorb [OF that])
  obtain m where Mm: "M = Fin m"
  proof (cases M)
    case (Fin m)
    then show ?thesis by (rule that)
  next
    case PInf
    then have "PInf \<in> set g" using Min by simp
    then obtain p where p: "p \<in> set ps" "\<psi> p = PInf" unfolding g_eq by auto
    have False
      using fin
    proof
      assume "list_all is_fin (group_fp (softmax_fp a index) index i d h)"
      from wf [OF this p(1)] show False using p(2) PInf by (simp add: fsub_def)
    next
      assume "list_all is_fin (group_fp a index i d h)"
      from sf [OF this p(1)] show False using p(2) by simp
    qed
    then show ?thesis ..
  next
    case NInf
    have n0: "\<psi> p0 = NInf"
      using absorb [of "\<psi> p0"] p0 NInf unfolding g_eq by (simp add: fmax_NInf)
    have False
      using fin
    proof
      assume "list_all is_fin (group_fp (softmax_fp a index) index i d h)"
      from wf [OF this p0] show False using n0 NInf by (simp add: fsub_def)
    next
      assume "list_all is_fin (group_fp a index i d h)"
      from sf [OF this p0] show False using n0 by simp
    qed
    then show ?thesis ..
  next
    case NaN
    have False
      using fin
    proof
      assume "list_all is_fin (group_fp (softmax_fp a index) index i d h)"
      from wf [OF this p0] show False using NaN by (simp add: fsub_NaN)
    next
      assume f: "list_all is_fin (group_fp a index i d h)"
      have "NaN \<in> set g" using Min NaN by simp
      then obtain p where p: "p \<in> set ps" "\<psi> p = NaN" unfolding g_eq by auto
      from sf [OF f p(1)] show False using p(2) by simp
    qed
    then show ?thesis ..
  qed
  have Mg: "Fin m \<in> set g" using Min Mm by simp
  have ex: "\<exists>c. fexp (fsub v (Fin m)) = Fin c \<and> 0 \<le> c \<and> c \<le> 1 \<and> (v = Fin m \<longrightarrow> c = 1)"
    if "v \<in> set g" for v
    by (rule fexp_below) (use absorb [OF that] Mm in simp)
  define c where "c = (\<lambda>v. SOME c. fexp (fsub v (Fin m)) = Fin c \<and> 0 \<le> c \<and> c \<le> 1
                               \<and> (v = Fin m \<longrightarrow> c = 1))"
  have cs: "fexp (fsub v (Fin m)) = Fin (c v) \<and> 0 \<le> c v \<and> c v \<le> 1 \<and> (v = Fin m \<longrightarrow> c v = 1)"
    if "v \<in> set g" for v
    unfolding c_def by (rule someI_ex) (rule ex [OF that])
  define T where "T = sum_list (map c g)"
  have "map (\<lambda>v. fexp (fsub v M)) g = map (\<lambda>v. Fin (c v)) g"
    by (rule map_cong [OF refl]) (use cs Mm in simp)
  then have e1: "map (\<lambda>v. fexp (fsub v M)) g = map Fin (map c g)"
    by (simp add: o_def)
  have e2: "foldl fadd (Fin 0) (map Fin (map c g)) = Fin (0 + sum_list (map c g))"
  proof (rule fsum_fin)
    show "\<forall>x\<in>set (map c g). 0 \<le> x \<and> x \<le> 1" using cs by auto
    show "(0::real) \<le> 0" by simp
    have "length g \<le> length index" using lps by (simp add: g_eq)
    then show "0 + real (length (map c g)) \<le> float_max" using n by simp
  qed
  have ST: "S = Fin T"
    unfolding S_def fsum_def T_def e1 e2 by simp
  have T1: "1 \<le> T"
  proof -
    have c1: "c (Fin m) = 1" using cs [OF Mg] by simp
    have "c (Fin m) \<in> set (map c g)" using Mg by simp
    moreover have "\<forall>x\<in>set (map c g). 0 \<le> x" using cs by auto
    ultimately have "c (Fin m) \<le> sum_list (map c g)"
      by (intro member_le_sum_list) auto
    then show ?thesis using c1 by (simp add: T_def)
  qed
  have w: "fdiv (fexp (fsub (\<psi> p) M)) S = Fin (c (\<psi> p) / T)" if "p \<in> set ps" for p
  proof -
    have mem: "\<psi> p \<in> set g" using that by (simp add: g_eq)
    have "0 \<le> c (\<psi> p) / T" "c (\<psi> p) / T \<le> 1"
      using cs [OF mem] T1 by (simp_all add: divide_le_eq)
    then have "\<bar>c (\<psi> p) / T\<bar> \<le> float_max" using float_max_pos by simp
    then show ?thesis
      using cs [OF mem] T1 by (simp add: Mm ST ovf_fin)
  qed
  have "group_fp (softmax_fp a index) index i d h = map Fin (map (\<lambda>p. c (\<psi> p) / T) ps)"
    unfolding grp' using w by simp
  moreover have "sum_list (map (\<lambda>p. c (\<psi> p) / T) ps) = 1"
  proof -
    have "(\<Sum>p\<leftarrow>ps. c (\<psi> p) / T) = (\<Sum>p\<leftarrow>ps. c (\<psi> p)) / T"
      by (rule sum_list_divide)
    also have "(\<Sum>p\<leftarrow>ps. c (\<psi> p)) = T"
      unfolding T_def g_eq by (simp add: o_def)
    finally show ?thesis using T1 by simp
  qed
  ultimately show ?thesis by blast
qed

lemma shape3_fp_nth:
  assumes "shape3_fp a E D H" "e < E"
  shows "length (a ! e) = D" and "d < D \<Longrightarrow> length (a ! e ! d) = H"
  using assms by (auto simp: shape3_fp_def list_all_length)

lemma shape3_fp_I:
  assumes "length a = E" "\<And>e. e < E \<Longrightarrow> length (a ! e) = D"
    "\<And>e d. e < E \<Longrightarrow> d < D \<Longrightarrow> length (a ! e ! d) = H"
  shows "shape3_fp a E D H"
  using assms by (auto simp: shape3_fp_def list_all_length)

lemma add3_fp_shape:
  assumes "shape3_fp aj E D H" "shape3_fp ai E D H"
  shows "shape3_fp (add3_fp aj ai) E D H"
proof (rule shape3_fp_I)
  have l: "length aj = E" "length ai = E" using assms by (simp_all add: shape3_fp_def)
  show "length (add3_fp aj ai) = E" using l by (simp add: add3_fp_def)
  fix e assume e: "e < E"
  have n: "add3_fp aj ai ! e = map2 (map2 fadd) (aj ! e) (ai ! e)"
    using l e by (simp add: add3_fp_def)
  have le: "length (aj ! e) = D" "length (ai ! e) = D"
    using shape3_fp_nth(1)[OF assms(1) e] shape3_fp_nth(1)[OF assms(2) e] by simp_all
  then show "length (add3_fp aj ai ! e) = D"
    unfolding n by simp
  fix d assume d: "d < D"
  have "length (aj ! e ! d) = H" "length (ai ! e ! d) = H"
    using shape3_fp_nth(2)[OF assms(1) e d] shape3_fp_nth(2)[OF assms(2) e d] by simp_all
  then show "length (add3_fp aj ai ! e ! d) = H"
    unfolding n using le d by simp
qed

lemma mean_dim1_fp_shape:
  assumes "shape3_fp b E D H" "0 < D"
  shows "shape3_fp (mean_dim1_fp b) E 1 H"
proof (rule shape3_fp_I)
  show "length (mean_dim1_fp b) = E" using assms by (simp add: mean_dim1_fp_def shape3_fp_def)
next
  fix e assume "e < E"
  then show "length (mean_dim1_fp b ! e) = 1"
    using assms by (simp add: mean_dim1_fp_def shape3_fp_def)
next
  fix e d assume e: "e < E" and "d < (1::nat)"
  then have d: "d = 0" by simp
  obtain row rest where r: "b ! e = row # rest"
    using shape3_fp_nth(1)[OF assms(1) e] assms(2) by (cases "b ! e") auto
  have "length row = H" using shape3_fp_nth(2)[OF assms(1) e, of 0] assms(2) r by simp
  then show "length (mean_dim1_fp b ! e ! d) = H"
    using e assms(1) r d by (simp add: mean_dim1_fp_def shape3_fp_def)
qed

lemma map3_fp_shape:
  assumes "shape3_fp a E D H"
  shows "shape3_fp (map (map (map f)) a) E D H"
  using assms by (auto simp: shape3_fp_def list_all_iff)

lemma overflow_example:
  "edge_update_fp example_layer [[[Fin (2 ^ 127)]]] (Some [[[Fin (2 ^ 127)]]]) None [0] no_draws
     = Inr [[[NaN]]]"
  by (simp add: edge_update_fp_def add3_fp_def mean_dim1_fp_def fsum_def softmax_fp_def
        group_fp_def fsub_def F_dropout_fp_def Let_def ovf_def float_max_def example_layer_def)

lemma overflow_group: "group_fp [[[NaN]]] [0] 0 0 0 = [NaN]"
  by (simp add: group_fp_def)

lemma finite_example2:
  "edge_update_fp example_layer [[[Fin 0], [Fin 2]], [[Fin 0], [Fin 0]]]
     (Some [[[Fin 0], [Fin 0]], [[Fin 0], [Fin 0]]]) None [0, 0] no_draws
     = Inr [[[Fin (1 / (1 + exp (- 1)))]], [[Fin (exp (- 1) / (1 + exp (- 1)))]]]"
proof -
  have e: "0 \<le> exp (- 1 :: real)" "exp (- 1 :: real) \<le> 1"
    by simp_all
  have e2: "exp (- 1 :: real) \<le> 2"
    by (rule order_trans [OF e(2)]) simp
  have o0: "ovf 0 = Fin 0" "ovf 1 = Fin 1" "ovf 2 = Fin 2" "ovf (- 1) = Fin (- 1)"
    by (simp_all add: ovf_def float_max_def)
  have o1: "ovf (exp (- 1)) = Fin (exp (- 1))"
    by (rule ovf_unit [OF e(1) e2])
  have o2: "ovf (1 + exp (- 1)) = Fin (1 + exp (- 1))"
    using e by (intro ovf_unit) simp_all
  have p: "0 < 1 + exp (- 1 :: real)"
    by (rule add_pos_nonneg [OF zero_less_one e(1)])
  have o3: "ovf (1 / (1 + exp (- 1))) = Fin (1 / (1 + exp (- 1)))"
    using e p by (intro ovf_unit) (simp_all add: pos_divide_le_eq)
  have o4: "ovf (exp (- 1) / (1 + exp (- 1))) = Fin (exp (- 1) / (1 + exp (- 1)))"
    using e p by (intro ovf_unit) (simp_all add: pos_divide_le_eq)
  have nz: "1 + exp (- 1 :: real) \<noteq> 0"
    using p by (rule less_imp_neq [THEN not_sym])
  show ?thesis
    by (simp add: edge_update_fp_def add3_fp_def mean_dim1_fp_def fsum_def softmax_fp_def
        group_fp_def fsub_def F_dropout_fp_def Let_def example_layer_def o0 o1 o2 o3 o4 nz)
qed

text \<open>
  C1, as the claim states it, fails on logits whose sum leaves the finite range. Two
  finite logits of \<open>2 ^ 127\<close> on one edge into node 0 add up to an infinity at
  line 145; the softmax subtracts the maximum of the group, an infinity from itself, and
  the weight of the edge is not a number. The weights of node 0 do not sum to 1.
\<close>

theorem edge_update_weights_sum_to_one_counterexample:
  "\<not> training example_layer
   \<and> \<bar>2 ^ 127\<bar> \<le> float_max
   \<and> edge_update_fp example_layer [[[Fin (2 ^ 127)]]] (Some [[[Fin (2 ^ 127)]]]) None [0]
        no_draws = Inr [[[NaN]]]
   \<and> group_fp [[[NaN]]] [0] 0 0 0 = [NaN]"
proof (intro conjI)
  show "\<not> training example_layer" by (simp add: example_layer_def)
  show "\<bar>2 ^ 127\<bar> \<le> float_max" by (simp add: float_max_def)
  show "edge_update_fp example_layer [[[Fin (2 ^ 127)]]] (Some [[[Fin (2 ^ 127)]]]) None [0]
        no_draws = Inr [[[NaN]]]"
    by (rule overflow_example)
  show "group_fp [[[NaN]]] [0] 0 0 0 = [NaN]"
    by (rule overflow_group)
qed

text \<open>
  C1, amended. In inference mode, for logits of shape \<open>[E, D, H]\<close> with
  \<open>D > 0\<close> on at most \<open>float_max\<close> edges, take a destination node \<open>i\<close>
  with at least one incoming edge and a head \<open>h\<close>. Whenever the scores that
  line 149 leaves for the edges into \<open>i\<close> are all finite numbers for \<open>h\<close>, or
  the attention weights that \<open>edge_update\<close> returns for them are, these weights are
  finite and sum to 1, for each head on its own. The sum is exact: the numbers overflow,
  and they are not rounded.
\<close>

theorem edge_update_weights_sum_to_one:
  assumes "\<not> training L"
    and "edge_update_fp L alpha_j (Some alpha_i) edge_attr index u = Inr w"
    and "shape3_fp alpha_j (length index) D H" and "shape3_fp alpha_i (length index) D H"
    and "0 < D" and "i \<in> set index" and "h < H"
    and "real (length index) \<le> float_max"
    and "list_all is_fin (group_fp w index i 0 h)
         \<or> list_all is_fin (group_fp (scores_fp L alpha_j alpha_i) index i 0 h)"
  shows "\<exists>ws. group_fp w index i 0 h = map Fin ws \<and> sum_list ws = 1"
proof -
  let ?a = "scores_fp L alpha_j alpha_i"
  have ne: "index \<noteq> []" using assms(6) by auto
  have "F_dropout_fp (softmax_fp ?a index) (dropout L) (training L) u = Inr w"
    using assms(2) ne by (simp add: edge_update_fp_def scores_fp_def Let_def)
  then have w: "w = softmax_fp ?a index"
    using assms(1) by (simp add: F_dropout_fp_def split: if_splits)
  have sh: "shape3_fp ?a (length index) 1 H"
    unfolding scores_fp_def
    by (rule map3_fp_shape [OF mean_dim1_fp_shape [OF add3_fp_shape [OF assms(3,4)] assms(5)]])
  have z: "(0::nat) < 1" by simp
  show ?thesis
    using softmax_fp_group_sum [OF sh assms(6) z assms(7,8)] assms(9) unfolding w by simp
qed

theorem edge_update_weights_sum_to_one_witness:
  "\<not> training example_layer
   \<and> edge_update_fp example_layer [[[Fin 0], [Fin 2]], [[Fin 0], [Fin 0]]]
        (Some [[[Fin 0], [Fin 0]], [[Fin 0], [Fin 0]]]) None [0, 0] no_draws
       = Inr [[[Fin (1 / (1 + exp (- 1)))]], [[Fin (exp (- 1) / (1 + exp (- 1)))]]]
   \<and> shape3_fp [[[Fin 0], [Fin 2]], [[Fin 0], [Fin 0]]] (length [0::nat, 0]) 2 1
   \<and> shape3_fp [[[Fin 0], [Fin 0]], [[Fin 0], [Fin 0]]] (length [0::nat, 0]) 2 1
   \<and> (0::nat) < 2 \<and> (0::nat) \<in> set [0, 0] \<and> (0::nat) < 1
   \<and> real (length [0::nat, 0]) \<le> float_max
   \<and> list_all is_fin
        (group_fp [[[Fin (1 / (1 + exp (- 1)))]], [[Fin (exp (- 1) / (1 + exp (- 1)))]]]
           [0, 0] 0 0 0)
   \<and> list_all is_fin
        (group_fp (scores_fp example_layer [[[Fin 0], [Fin 2]], [[Fin 0], [Fin 0]]]
                     [[[Fin 0], [Fin 0]], [[Fin 0], [Fin 0]]]) [0, 0] 0 0 0)
   \<and> sum_list [1 / (1 + exp (- 1)), exp (- 1) / (1 + exp (- 1)) :: real] = 1"
proof -
  let ?w = "[[[Fin (1 / (1 + exp (- 1)))]], [[Fin (exp (- 1) / (1 + exp (- 1)))]]]"
  have tr: "\<not> training example_layer"
    by (simp add: example_layer_def)
  have sj: "shape3_fp [[[Fin 0], [Fin 2]], [[Fin 0], [Fin 0]]] (length [0::nat, 0]) 2 1"
    and si: "shape3_fp [[[Fin 0], [Fin 0]], [[Fin 0], [Fin 0]]] (length [0::nat, 0]) 2 1"
    by (simp_all add: shape3_fp_def)
  have z: "(0::nat) < 2" and m: "(0::nat) \<in> set [0, 0]" and h: "(0::nat) < 1"
    by simp_all
  have n: "real (length [0::nat, 0]) \<le> float_max"
    by (simp add: float_max_def)
  have g: "group_fp ?w [0, 0] 0 0 0
             = [Fin (1 / (1 + exp (- 1))), Fin (exp (- 1) / (1 + exp (- 1)))]"
    by (simp add: group_fp_def)
  have f: "list_all is_fin (group_fp ?w [0, 0] 0 0 0)"
    unfolding g by simp
  have sc: "scores_fp example_layer [[[Fin 0], [Fin 2]], [[Fin 0], [Fin 0]]]
              [[[Fin 0], [Fin 0]], [[Fin 0], [Fin 0]]] = [[[Fin 1]], [[Fin 0]]]"
    by (simp add: scores_fp_def add3_fp_def mean_dim1_fp_def fsum_def ovf_def float_max_def)
  have f': "list_all is_fin
        (group_fp (scores_fp example_layer [[[Fin 0], [Fin 2]], [[Fin 0], [Fin 0]]]
                     [[[Fin 0], [Fin 0]], [[Fin 0], [Fin 0]]]) [0, 0] 0 0 0)"
    unfolding sc by (simp add: group_fp_def)
  from edge_update_weights_sum_to_one [OF tr finite_example2 sj si z m h n disjI2 [OF f']]
  obtain ws where ws: "group_fp ?w [0, 0] 0 0 0 = map Fin ws" and s: "sum_list ws = 1"
    by blast
  have "ws = [1 / (1 + exp (- 1)), exp (- 1) / (1 + exp (- 1))]"
    using ws unfolding g by (auto simp: Cons_eq_map_conv)
  then have c: "sum_list [1 / (1 + exp (- 1)), exp (- 1) / (1 + exp (- 1)) :: real] = 1"
    using s by simp
  show ?thesis
    by (intro conjI tr finite_example2 sj si z m h n f f' c)
qed

section \<open>Shapes and entries\<close>

lemma length_concat_const:
  assumes "\<And>x. x \<in> set xs \<Longrightarrow> length (f x) = c"
  shows "length (concat (map f xs)) = length xs * c"
  using assms by (induction xs) auto

lemma length_nested2:
  "length (concat (map (\<lambda>d. map (g d) [0..<F]) [0..<D])) = D * F"
  using length_concat_const [of "[0..<D]" "\<lambda>d. map (g d) [0..<F]" F] by simp

lemma length_nested3:
  "length (concat (map (\<lambda>d. concat (map (\<lambda>h. map (g d h) [0..<F]) [0..<H])) [0..<D]))
     = D * (H * F)"
  using length_concat_const [of "[0..<D]"
          "\<lambda>d. concat (map (\<lambda>h. map (g d h) [0..<F]) [0..<H])" "H * F"]
  by (simp add: length_nested2)

lemma length_nested4:
  "length (concat (map (\<lambda>i. concat (map (\<lambda>d. concat (map (\<lambda>h. map (g i d h) [0..<F])
             [0..<H])) [0..<D])) [0..<n]))
     = n * (D * (H * F))"
  using length_concat_const [of "[0..<n]"
          "\<lambda>i. concat (map (\<lambda>d. concat (map (\<lambda>h. map (g i d h) [0..<F]) [0..<H])) [0..<D])"
          "D * (H * F)"]
  by (simp add: length_nested3)

lemma length_flatten4_aggregate:
  "length (flatten4 (aggregate inputs index n D H F)) = n * D * H * F"
proof -
  have "flatten4 (aggregate inputs index n D H F)
      = concat (map (\<lambda>i. concat (map (\<lambda>d. concat (map (\<lambda>h. map (\<lambda>f.
          (\<Sum>(m, k)\<leftarrow>filter (\<lambda>(m, k). k = i) (zip inputs index). m ! d ! h ! f))
             [0..<F]) [0..<H])) [0..<D])) [0..<n])"
    by (simp add: flatten4_def aggregate_def o_def)
  then show ?thesis
    by (simp only: length_nested4 mult.assoc)
qed

lemma out_of_returned: "out_of (returned lib out ei al raw) = out"
  by (cases raw; cases ei) (simp_all add: returned_def)

lemma propagate_shape:
  assumes "propagate lib ei x' alpha size_pair = Inr out"
  shows "\<exists>n. shape out = [n, shape x' ! 1, shape x' ! 2, shape x' ! 3]
     \<and> length (data out) = n * (shape x' ! 1) * (shape x' ! 2) * (shape x' ! 3)"
  using assms unfolding propagate_def Let_def
  by (auto simp: length_flatten4_aggregate split: if_splits option.splits)

lemma length_concat_all:
  assumes "\<And>x. x \<in> set xss \<Longrightarrow> length x = c"
  shows "length (concat xss) = length xss * c"
  using length_concat_const [of xss "\<lambda>x. x" c] assms by simp

lemma length_nest4:
  assumes "shape t = [n, D, H, F]"
  shows "length (nest4 t) = n" and "\<And>b. b \<in> set (nest4 t) \<Longrightarrow> length b = D"
  using assms by (auto simp: nest4_def Let_def)

lemma length_mean_dim2:
  assumes "shape t = [n, D, H, F]"
  shows "shape (mean_dim2 t) = [n, D, F]" and "length (data (mean_dim2 t)) = n * D * F"
proof -
  show "shape (mean_dim2 t) = [n, D, F]" using assms by (simp add: mean_dim2_def)
  define \<phi> :: "real list list \<Rightarrow> real list"
    where "\<phi> = (\<lambda>blk. map (\<lambda>f. (\<Sum>row\<leftarrow>blk. row ! f) / real (shape t ! 2)) [0..<shape t ! 3])"
  have len: "length (\<phi> blk) = F" for blk using assms by (simp add: \<phi>_def)
  let ?A = "concat (map (map \<phi>) (nest4 t))"
  have d: "data (mean_dim2 t) = concat ?A"
    by (simp add: mean_dim2_def \<phi>_def)
  have "length ?A = length (nest4 t) * D"
    by (rule length_concat_const) (simp add: length_nest4(2) [OF assms])
  then have lA: "length ?A = n * D"
    by (simp add: length_nest4(1) [OF assms])
  have "length (concat ?A) = length ?A * F"
    by (rule length_concat_all) (auto simp: len)
  then show "length (data (mean_dim2 t)) = n * D * F"
    unfolding d lA .
qed

lemma length_F_dropout:
  "F_dropout a p tr u = Inr w \<Longrightarrow> length w = length a"
  by (auto simp: F_dropout_def split: if_splits)

lemma length_edge_update:
  assumes "edge_update L aj (Some ai) ea index u = Inr w"
    and "length aj = length index" and "length ai = length index"
  shows "length w = length index"
proof (cases "index = []")
  case True
  then show ?thesis using assms by (simp add: edge_update_def Let_def mean_dim1_def add3_def)
next
  case False
  then have "F_dropout (softmax (map (map (map (\<lambda>v. leaky_relu v (negative_slope L))))
                 (mean_dim1 (add3 aj ai))) index) (dropout L) (training L) u = Inr w"
    using assms(1) by (simp add: edge_update_def Let_def)
  from length_F_dropout [OF this] show ?thesis
    using assms(2,3) by (simp add: softmax_def mean_dim1_def add3_def)
qed

lemma length_edge_updater:
  assumes "edge_updater lib L ei al ea u = Inr w"
  shows "length w = length (edge_list lib ei)"
proof -
  have "edge_update L (map (\<lambda>(j, i). fst al ! j) (edge_list lib ei))
          (Some (map (\<lambda>(j, i). snd al ! i) (edge_list lib ei))) ea
          (map snd (edge_list lib ei)) u = Inr w"
    using assms by (simp add: edge_updater_def Let_def split: if_splits)
  from length_edge_update [OF this] show ?thesis by simp
qed

lemma map_upt_shift:
  "map f [k..<k + m] = map (\<lambda>j. f (k + j)) [0..<m]"
proof -
  have "[k..<k + m] = map (\<lambda>i. i + k) [0..<m]"
    using map_add_upt [of k m] by (simp only: add.commute)
  then have "map f [k..<k + m] = map f (map (\<lambda>i. i + k) [0..<m])"
    by (rule arg_cong)
  also have "\<dots> = map (\<lambda>j. f (k + j)) [0..<m]"
    by (simp only: map_map o_def add.commute)
  finally show ?thesis .
qed

lemma concat_map_upt:
  "concat (map (\<lambda>i. map (\<lambda>j. f (i * m + j)) [0..<m]) [0..<n]) = map f [0..<n * m]"
proof (induction n)
  case 0
  then show ?case by simp
next
  case (Suc n)
  have "[0..<Suc n * m] = [0..<n * m] @ [n * m..<n * m + m]"
    using upt_add_eq_append [of 0 "n * m" m] by (simp add: add.commute)
  then have "map f [0..<Suc n * m] = map f [0..<n * m] @ map (\<lambda>j. f (n * m + j)) [0..<m]"
    by (simp only: map_append map_upt_shift)
  then show ?case using Suc by simp
qed


lemma concat_map_upt_off:
  "concat (map (\<lambda>i. map (\<lambda>j. g ((c * n + i) * m + j)) [0..<m]) [0..<n])
     = map (\<lambda>k. g (c * (n * m) + k)) [0..<n * m]"
proof -
  have e: "(c * n + i) * m + j = i * m + j + c * (n * m)" for i j
    by (simp add: add_mult_distrib mult.assoc)
  have "concat (map (\<lambda>i. map (\<lambda>j. g (i * m + j + c * (n * m))) [0..<m]) [0..<n])
     = map (\<lambda>k. g (k + c * (n * m))) [0..<n * m]"
    by (rule concat_map_upt [of "\<lambda>k. g (k + c * (n * m))" m n])
  then show ?thesis
    by (simp only: e add.commute [of _ "c * (n * m)"])
qed







lemma nest4_lengths:
  "length (nest4 (Tensor [N, D, H, F] xs)) = N"
  "n < N \<Longrightarrow> length (nest4 (Tensor [N, D, H, F] xs) ! n) = D"
  "n < N \<Longrightarrow> d < D \<Longrightarrow> length (nest4 (Tensor [N, D, H, F] xs) ! n ! d) = H"
  "n < N \<Longrightarrow> d < D \<Longrightarrow> h < H \<Longrightarrow> length (nest4 (Tensor [N, D, H, F] xs) ! n ! d ! h) = F"
  by (simp_all add: nest4_def)

lemma att_sum_shape:
  "shape3 (att_sum (nest4 (Tensor [N, D, H, F] xs)) att H F) N D H"
  by (rule shape3_I) (simp_all add: att_sum_def nest4_lengths)













lemma step_bound: "a < A \<Longrightarrow> b < B \<Longrightarrow> a * B + b < A * (B::nat)"
proof -
  assume a: "a < A" and b: "b < B"
  have "a * B + b < a * B + B" using b by simp
  also have "\<dots> = Suc a * B" by simp
  also have "\<dots> \<le> A * B" using a by (intro mult_le_mono1) simp
  finally show ?thesis .
qed








lemma nth_concat_const:
  assumes "\<And>x. x \<in> set xss \<Longrightarrow> length x = c" and "i < length xss" and "j < c"
  shows "concat xss ! (i * c + j) = xss ! i ! j"
  using assms
proof (induction xss arbitrary: i)
  case Nil
  then show ?case by simp
next
  case (Cons x xs)
  have lx: "length x = c" using Cons.prems(1) by simp
  show ?case
  proof (cases i)
    case 0
    then show ?thesis using lx Cons.prems(3) by (simp add: nth_append)
  next
    case (Suc k)
    have "concat xs ! (k * c + j) = xs ! k ! j"
      using Cons.prems Suc by (intro Cons.IH) auto
    then show ?thesis using Suc lx by (simp add: nth_append)
  qed
qed

lemma nested_nth_eq:
  assumes "length A = N" and "\<And>i. i < N \<Longrightarrow> length (A ! i) = D"
    and "\<And>i d. i < N \<Longrightarrow> d < D \<Longrightarrow> length (A ! i ! d) = F"
  shows "map (\<lambda>n. map (\<lambda>d. map (\<lambda>k. A ! n ! d ! k) [0..<F]) [0..<D]) [0..<N] = A"
proof (rule nth_equalityI)
  show "length (map (\<lambda>n. map (\<lambda>d. map (\<lambda>k. A ! n ! d ! k) [0..<F]) [0..<D]) [0..<N]) = length A"
    using assms(1) by simp
  fix i assume "i < length (map (\<lambda>n. map (\<lambda>d. map (\<lambda>k. A ! n ! d ! k) [0..<F]) [0..<D]) [0..<N])"
  then have i: "i < N" by simp
  have "map (\<lambda>d. map (\<lambda>k. A ! i ! d ! k) [0..<F]) [0..<D] = A ! i"
  proof (rule nth_equalityI)
    show "length (map (\<lambda>d. map (\<lambda>k. A ! i ! d ! k) [0..<F]) [0..<D]) = length (A ! i)"
      using assms(2) [OF i] by simp
    fix d assume "d < length (map (\<lambda>d. map (\<lambda>k. A ! i ! d ! k) [0..<F]) [0..<D])"
    then have d: "d < D" by simp
    have "map (\<lambda>k. A ! i ! d ! k) [0..<F] = A ! i ! d"
      using assms(3) [OF i d] map_nth [of "A ! i ! d"] by simp
    then show "map (\<lambda>d. map (\<lambda>k. A ! i ! d ! k) [0..<F]) [0..<D] ! d = A ! i ! d"
      using d by simp
  qed
  then show "map (\<lambda>n. map (\<lambda>d. map (\<lambda>k. A ! n ! d ! k) [0..<F]) [0..<D]) [0..<N] ! i = A ! i"
    using i by simp
qed

lemma nest3_flatten:
  assumes "length A = N" and "\<And>i. i < N \<Longrightarrow> length (A ! i) = D"
    and "\<And>i d. i < N \<Longrightarrow> d < D \<Longrightarrow> length (A ! i ! d) = F"
  shows "nest3 (Tensor [N, D, F] (concat (concat A))) = A"
proof -
  have rows: "length r = D" if "r \<in> set A" for r
    using that assms(1,2) by (auto simp: in_set_conv_nth)
  have lc: "length (concat A) = N * D"
    using length_concat_all [of A D] rows assms(1) by simp
  have cells: "length c = F" if "c \<in> set (concat A)" for c
  proof -
    from that obtain r where r: "r \<in> set A" "c \<in> set r" by auto
    then obtain i where i: "i < N" "r = A ! i" using assms(1) by (auto simp: in_set_conv_nth)
    then obtain d where "d < D" "c = A ! i ! d"
      using r(2) assms(2) [OF i(1)] by (auto simp: in_set_conv_nth)
    then show ?thesis using assms(3) i by simp
  qed
  have e: "concat (concat A) ! ((n * D + d) * F + k) = A ! n ! d ! k"
    if "n < N" "d < D" "k < F" for n d k
  proof -
    have "n * D + d < length (concat A)"
      unfolding lc using that by (intro step_bound)
    then have "concat (concat A) ! ((n * D + d) * F + k) = concat A ! (n * D + d) ! k"
      using cells that(3) by (intro nth_concat_const) auto
    also have "concat A ! (n * D + d) = A ! n ! d"
      using rows that assms(1) by (intro nth_concat_const) auto
    finally show ?thesis .
  qed
  have "nest3 (Tensor [N, D, F] (concat (concat A)))
      = map (\<lambda>n. map (\<lambda>d. map (\<lambda>k. concat (concat A) ! ((n * D + d) * F + k)) [0..<F]) [0..<D])
          [0..<N]"
    by (simp add: nest3_def)
  also have "\<dots> = map (\<lambda>n. map (\<lambda>d. map (\<lambda>k. A ! n ! d ! k) [0..<F]) [0..<D]) [0..<N]"
    by (intro map_cong refl) (simp add: e)
  also have "\<dots> = A"
    by (rule nested_nth_eq [OF assms])
  finally show ?thesis .
qed

lemma nest3_view:
  "nest3 (Tensor [N, D, H * F] xs) = map (map concat) (nest4 (Tensor [N, D, H, F] xs))"
proof -
  have "map (map concat) (nest4 (Tensor [N, D, H, F] xs))
      = map (\<lambda>n. map (\<lambda>d. concat (map (\<lambda>h. map (\<lambda>f. xs ! (((n * D + d) * H + h) * F + f))
            [0..<F]) [0..<H])) [0..<D]) [0..<N]"
    by (simp add: nest4_def o_def)
  also have "\<dots> = map (\<lambda>n. map (\<lambda>d. map (\<lambda>k. xs ! ((n * D + d) * (H * F) + k)) [0..<H * F])
            [0..<D]) [0..<N]"
    by (simp only: concat_map_upt_off [of "\<lambda>k. xs ! k"])
  also have "\<dots> = nest3 (Tensor [N, D, H * F] xs)"
    by (simp add: nest3_def Let_def)
  finally show ?thesis by simp
qed

lemma nest3_mean_dim2:
  "nest3 (mean_dim2 (Tensor [N, D, H, F] xs))
     = map (map (\<lambda>blk. map (\<lambda>f. (\<Sum>row\<leftarrow>blk. row ! f) / real H) [0..<F]))
         (nest4 (Tensor [N, D, H, F] xs))"
proof -
  let ?A = "map (map (\<lambda>blk. map (\<lambda>f. (\<Sum>row\<leftarrow>blk. row ! f) / real H) [0..<F]))
              (nest4 (Tensor [N, D, H, F] xs))"
  have "mean_dim2 (Tensor [N, D, H, F] xs) = Tensor [N, D, F] (concat (concat ?A))"
    by (simp add: mean_dim2_def)
  moreover have "nest3 (Tensor [N, D, F] (concat (concat ?A))) = ?A"
    by (rule nest3_flatten) (simp_all add: nest4_lengths)
  ultimately show ?thesis by simp
qed

section \<open>The width of the output\<close>

text \<open>
  C4. Whenever \<open>forward\<close> succeeds, its node embeddings are built from the tensor
  \<open>out\<close> of shape \<open>[n, x_dim, heads, out_channels]\<close> that \<open>propagate\<close>
  returns. With \<open>concat\<close> the last dimension has the width
  \<open>heads * out_channels\<close> and each row is the concatenation of the rows of the heads;
  without it the width is \<open>out_channels\<close> and each entry is the mean of that feature
  over the heads. The entries fill the shape.
\<close>

theorem forward_output_width:
  assumes "forward lib L x edge_index edge_attr size_pair raw u = Inr r"
  shows "\<exists>y x' ei ea alpha out n.
      lin L x = Inr y \<and> view4 y (shape x ! 1) (heads L) (out_channels L) = Inr x'
    \<and> self_loops_step lib L x' edge_index edge_attr size_pair = Inr (ei, ea)
    \<and> edge_updater lib L ei
          (att_sum (nest4 x') (att_src L) (heads L) (out_channels L),
           att_sum (nest4 x') (att_dst L) (heads L) (out_channels L)) ea u = Inr alpha
    \<and> propagate lib ei x' alpha size_pair = Inr out
    \<and> shape out = [n, shape x ! 1, heads L, out_channels L]
    \<and> shape (out_of r)
         = [n, shape x ! 1,
            if concat_heads L then heads L * out_channels L else out_channels L]
    \<and> length (data (out_of r)) = prod_list (shape (out_of r))
    \<and> (concat_heads L \<longrightarrow> nest3 (out_of r) = map (map concat) (nest4 out))
    \<and> (\<not> concat_heads L \<longrightarrow>
          nest3 (out_of r)
            = map (map (\<lambda>blk. map (\<lambda>f. (\<Sum>row\<leftarrow>blk. row ! f) / real (heads L))
                               [0..<out_channels L]))
                (nest4 out))"
proof -
  from forward_Inr [OF assms] obtain y x' ei ea alpha out out' where
    d: "dim x = 3" and l: "lin L x = Inr y"
    and v: "view4 y (shape x ! 1) (heads L) (out_channels L) = Inr x'"
    and s: "self_loops_step lib L x' edge_index edge_attr size_pair = Inr (ei, ea)"
    and e: "edge_updater lib L ei
          (att_sum (nest4 x') (att_src L) (heads L) (out_channels L),
           att_sum (nest4 x') (att_dst L) (heads L) (out_channels L)) ea u = Inr alpha"
    and p: "propagate lib ei x' alpha size_pair = Inr out"
    and c: "combine_heads L out (shape x ! 1) = Inr out'"
    and r: "r = returned lib out' ei (Tensor [length alpha, 1, heads L] (concat (concat alpha))) raw"
    by blast
  define D H F where "D = shape x ! 1" and "H = heads L" and "F = out_channels L"
  note defs = D_def H_def F_def
  have sx: "shape x' = [shape x ! 0, D, H, F]"
    using view_shape [OF d l v] by (simp add: defs)
  have nz: "D * H * F \<noteq> 0"
    using v by (auto simp: view4_def defs split: if_splits)
  from propagate_shape [OF p] sx obtain n where
    so: "shape out = [n, D, H, F]"
    and lo: "length (data out) = n * D * H * F"
    by auto
  have out: "out = Tensor [n, D, H, F] (data out)"
    using so by (cases out) simp
  have o: "out_of r = out'" unfolding r by (rule out_of_returned)
  have w: "shape out' = [n, D, if concat_heads L then H * F else F]
     \<and> length (data out') = prod_list (shape out')
     \<and> (concat_heads L \<longrightarrow> nest3 out' = map (map concat) (nest4 out))
     \<and> (\<not> concat_heads L \<longrightarrow>
          nest3 out' = map (map (\<lambda>blk. map (\<lambda>f. (\<Sum>row\<leftarrow>blk. row ! f) / real H) [0..<F]))
                (nest4 out))"
  proof (cases "concat_heads L")
    case True
    then have "view3 out D (H * F) = Inr out'"
      using c by (simp add: combine_heads_def defs)
    moreover have "numel out div (D * (H * F)) = n"
      using so nz by (simp add: numel_def mult.assoc)
    ultimately have o': "out' = Tensor [n, D, H * F] (data out)"
      by (auto simp: view3_def split: if_splits)
    have "nest3 out' = map (map concat) (nest4 (Tensor [n, D, H, F] (data out)))"
      unfolding o' by (rule nest3_view)
    then have "nest3 out' = map (map concat) (nest4 out)"
      using out by simp
    then show ?thesis using True lo o' by (simp add: mult.assoc)
  next
    case False
    then have o': "out' = mean_dim2 out" using c by (simp add: combine_heads_def)
    have "nest3 (mean_dim2 (Tensor [n, D, H, F] (data out)))
        = map (map (\<lambda>blk. map (\<lambda>f. (\<Sum>row\<leftarrow>blk. row ! f) / real H) [0..<F]))
            (nest4 (Tensor [n, D, H, F] (data out)))"
      by (rule nest3_mean_dim2)
    then have "nest3 out'
        = map (map (\<lambda>blk. map (\<lambda>f. (\<Sum>row\<leftarrow>blk. row ! f) / real H) [0..<F])) (nest4 out)"
      using out o' by simp
    then show ?thesis using False length_mean_dim2 [OF so] o' by (simp add: mult.assoc)
  qed
  show ?thesis
    apply (rule exI [of _ y], rule exI [of _ x'], rule exI [of _ ei], rule exI [of _ ea],
           rule exI [of _ alpha], rule exI [of _ out], rule exI [of _ n])
    using l v s e p so w o by (simp add: defs)
qed

lemma example4_steps:
  "lin example_layer4 example_x = Inr (Tensor [3, 1, 2] [1, 2, 2, 4, 3, 6])"
  "view4 (Tensor [3, 1, 2] [1, 2, 2, 4, 3, 6]) (shape example_x ! 1) (heads example_layer4)
      (out_channels example_layer4) = Inr (Tensor [3, 1, 2, 1] [1, 2, 2, 4, 3, 6])"
  "self_loops_step example_lib example_layer4 (Tensor [3, 1, 2, 1] [1, 2, 2, 4, 3, 6])
      (EdgeIndex []) None None = Inr (EdgeIndex [(0, 0), (1, 1), (2, 2)], None)"
  by (simp_all add: lin_def view4_def numel_def self_loops_step_def remove_self_loops_def
        add_self_loops_lib_def example_layer4_def example_layer_def example_x_def upt_3 upt_2)

lemma example4_weights:
  "edge_updater example_lib example_layer4 (EdgeIndex [(0, 0), (1, 1), (2, 2)])
      (att_sum (nest4 (Tensor [3, 1, 2, 1] [1, 2, 2, 4, 3, 6])) (att_src example_layer4)
         (heads example_layer4) (out_channels example_layer4),
       att_sum (nest4 (Tensor [3, 1, 2, 1] [1, 2, 2, 4, 3, 6])) (att_dst example_layer4)
         (heads example_layer4) (out_channels example_layer4)) None no_draws
     = Inr [[[1, 1]], [[1, 1]], [[1, 1]]]"
  by (simp add: eval_defs example_layer4_def example_layer_def upt_3 upt_2)

lemma example4_out:
  "propagate example_lib (EdgeIndex [(0, 0), (1, 1), (2, 2)])
      (Tensor [3, 1, 2, 1] [1, 2, 2, 4, 3, 6]) [[[1, 1]], [[1, 1]], [[1, 1]]] None
     = Inr (Tensor [3, 1, 2, 1] [1, 2, 2, 4, 3, 6])"
  by (simp add: eval_defs upt_3 upt_2)

lemma example5_steps:
  "lin example_layer5 example_x = Inr (Tensor [3, 1, 2] [1, 2, 2, 4, 3, 6])"
  "view4 (Tensor [3, 1, 2] [1, 2, 2, 4, 3, 6]) (shape example_x ! 1) (heads example_layer5)
      (out_channels example_layer5) = Inr (Tensor [3, 1, 2, 1] [1, 2, 2, 4, 3, 6])"
  "self_loops_step example_lib example_layer5 (Tensor [3, 1, 2, 1] [1, 2, 2, 4, 3, 6])
      (EdgeIndex []) None None = Inr (EdgeIndex [(0, 0), (1, 1), (2, 2)], None)"
  by (simp_all add: lin_def view4_def numel_def self_loops_step_def remove_self_loops_def
        add_self_loops_lib_def example_layer5_def example_layer4_def example_layer_def
        example_x_def upt_3 upt_2)

lemma example5_weights:
  "edge_updater example_lib example_layer5 (EdgeIndex [(0, 0), (1, 1), (2, 2)])
      (att_sum (nest4 (Tensor [3, 1, 2, 1] [1, 2, 2, 4, 3, 6])) (att_src example_layer5)
         (heads example_layer5) (out_channels example_layer5),
       att_sum (nest4 (Tensor [3, 1, 2, 1] [1, 2, 2, 4, 3, 6])) (att_dst example_layer5)
         (heads example_layer5) (out_channels example_layer5)) None no_draws
     = Inr [[[1, 1]], [[1, 1]], [[1, 1]]]"
  by (simp add: eval_defs example_layer5_def example_layer4_def example_layer_def upt_3 upt_2)

lemma forward_example4:
  "forward example_lib example_layer4 example_x (EdgeIndex []) None None None no_draws
     = Inr (OnlyOut (Tensor [3, 1, 1] [3 / 2, 3, 9 / 2]))"
  by (simp add: eval_defs example_layer4_def example_layer_def example_x_def upt_3 upt_2)

lemma forward_example5:
  "forward example_lib example_layer5 example_x (EdgeIndex []) None None None no_draws
     = Inr (OnlyOut (Tensor [3, 1, 2] [1, 2, 2, 4, 3, 6]))"
  by (simp add: eval_defs example_layer5_def example_layer4_def example_layer_def example_x_def
        upt_3 upt_2)

theorem forward_output_width_witness:
  "forward example_lib example_layer4 example_x (EdgeIndex []) None None None no_draws
     = Inr (OnlyOut (Tensor [3, 1, 1] [3 / 2, 3, 9 / 2]))
   \<and> forward example_lib example_layer5 example_x (EdgeIndex []) None None None no_draws
     = Inr (OnlyOut (Tensor [3, 1, 2] [1, 2, 2, 4, 3, 6]))
   \<and> \<not> concat_heads example_layer4 \<and> concat_heads example_layer5
   \<and> nest3 (Tensor [3, 1, 1] [3 / 2, 3, 9 / 2])
       = map (map (\<lambda>blk. map (\<lambda>f. (\<Sum>row\<leftarrow>blk. row ! f) / real (heads example_layer4))
                          [0..<out_channels example_layer4]))
           (nest4 (Tensor [3, 1, 2, 1] [1, 2, 2, 4, 3, 6]))
   \<and> nest3 (Tensor [3, 1, 2] [1, 2, 2, 4, 3, 6])
       = map (map concat) (nest4 (Tensor [3, 1, 2, 1] [1, 2, 2, 4, 3, 6]))
   \<and> nest4 (Tensor [3, 1, 2, 1] [1, 2, 2, 4, 3, 6]) = [[[[1], [2]]], [[[2], [4]]], [[[3], [6]]]]
   \<and> nest3 (Tensor [3, 1, 1] [3 / 2, 3, 9 / 2]) = [[[3 / 2]], [[3]], [[9 / 2]]]
   \<and> nest3 (Tensor [3, 1, 2] [1, 2, 2, 4, 3, 6]) = [[[1, 2]], [[2, 4]], [[3, 6]]]"
proof -
  note f4 = forward_example4 and f5 = forward_example5
  have nc: "\<not> concat_heads example_layer4" and c: "concat_heads example_layer5"
    by (simp_all add: example_layer4_def example_layer5_def)
  have g4: "nest3 (Tensor [3, 1, 1] [3 / 2, 3, 9 / 2])
       = map (map (\<lambda>blk. map (\<lambda>f. (\<Sum>row\<leftarrow>blk. row ! f) / real (heads example_layer4))
                          [0..<out_channels example_layer4]))
           (nest4 (Tensor [3, 1, 2, 1] [1, 2, 2, 4, 3, 6]))"
  proof -
    from forward_output_width [OF f4] obtain y x' ei ea alpha out where
      l: "lin example_layer4 example_x = Inr y"
      and v: "view4 y (shape example_x ! 1) (heads example_layer4) (out_channels example_layer4)
                = Inr x'"
      and s: "self_loops_step example_lib example_layer4 x' (EdgeIndex []) None None
                = Inr (ei, ea)"
      and e: "edge_updater example_lib example_layer4 ei
            (att_sum (nest4 x') (att_src example_layer4) (heads example_layer4)
               (out_channels example_layer4),
             att_sum (nest4 x') (att_dst example_layer4) (heads example_layer4)
               (out_channels example_layer4)) ea no_draws = Inr alpha"
      and p: "propagate example_lib ei x' alpha None = Inr out"
      and m: "\<not> concat_heads example_layer4 \<longrightarrow>
            nest3 (out_of (OnlyOut (Tensor [3, 1, 1] [3 / 2, 3, 9 / 2])
                     :: (edges \<times> tensor) forward_result))
              = map (map (\<lambda>blk. map (\<lambda>f. (\<Sum>row\<leftarrow>blk. row ! f) / real (heads example_layer4))
                                 [0..<out_channels example_layer4]))
                  (nest4 out)"
      by blast
    have y: "y = Tensor [3, 1, 2] [1, 2, 2, 4, 3, 6]"
      using l example4_steps(1) by simp
    have x': "x' = Tensor [3, 1, 2, 1] [1, 2, 2, 4, 3, 6]"
      using v example4_steps(2) unfolding y by simp
    have ei: "ei = EdgeIndex [(0, 0), (1, 1), (2, 2)]" "ea = None"
      using s example4_steps(3) unfolding x' by simp_all
    have al: "alpha = [[[1, 1]], [[1, 1]], [[1, 1]]]"
      using e example4_weights unfolding x' ei by simp
    have out: "out = Tensor [3, 1, 2, 1] [1, 2, 2, 4, 3, 6]"
      using p example4_out unfolding x' ei al by simp
    show ?thesis
      using m nc unfolding out by simp
  qed
  have g5: "nest3 (Tensor [3, 1, 2] [1, 2, 2, 4, 3, 6])
       = map (map concat) (nest4 (Tensor [3, 1, 2, 1] [1, 2, 2, 4, 3, 6]))"
  proof -
    from forward_output_width [OF f5] obtain y x' ei ea alpha out where
      l: "lin example_layer5 example_x = Inr y"
      and v: "view4 y (shape example_x ! 1) (heads example_layer5) (out_channels example_layer5)
                = Inr x'"
      and s: "self_loops_step example_lib example_layer5 x' (EdgeIndex []) None None
                = Inr (ei, ea)"
      and e: "edge_updater example_lib example_layer5 ei
            (att_sum (nest4 x') (att_src example_layer5) (heads example_layer5)
               (out_channels example_layer5),
             att_sum (nest4 x') (att_dst example_layer5) (heads example_layer5)
               (out_channels example_layer5)) ea no_draws = Inr alpha"
      and p: "propagate example_lib ei x' alpha None = Inr out"
      and m: "concat_heads example_layer5 \<longrightarrow>
            nest3 (out_of (OnlyOut (Tensor [3, 1, 2] [1, 2, 2, 4, 3, 6])
                     :: (edges \<times> tensor) forward_result))
              = map (map concat) (nest4 out)"
      by blast
    have y: "y = Tensor [3, 1, 2] [1, 2, 2, 4, 3, 6]"
      using l example5_steps(1) by simp
    have x': "x' = Tensor [3, 1, 2, 1] [1, 2, 2, 4, 3, 6]"
      using v example5_steps(2) unfolding y by simp
    have ei: "ei = EdgeIndex [(0, 0), (1, 1), (2, 2)]" "ea = None"
      using s example5_steps(3) unfolding x' by simp_all
    have al: "alpha = [[[1, 1]], [[1, 1]], [[1, 1]]]"
      using e example5_weights unfolding x' ei by simp
    have out: "out = Tensor [3, 1, 2, 1] [1, 2, 2, 4, 3, 6]"
      using p example4_out unfolding x' ei al by simp
    show ?thesis
      using m c unfolding out by simp
  qed
  have n4: "nest4 (Tensor [3, 1, 2, 1] [1, 2, 2, 4, 3, 6]) = [[[[1], [2]]], [[[2], [4]]], [[[3], [6]]]]"
    by (simp add: nest4_def upt_3 upt_2)
  have n3: "nest3 (Tensor [3, 1, 1] [3 / 2, 3, 9 / 2]) = [[[3 / 2]], [[3]], [[9 / 2]]]"
    by (simp add: nest3_def upt_3)
  have n5: "nest3 (Tensor [3, 1, 2] [1, 2, 2, 4, 3, 6]) = [[[1, 2]], [[2, 4]], [[3, 6]]]"
    by (simp add: nest3_def upt_3 upt_2)
  show ?thesis
    by (intro conjI f4 f5 nc c g4 g5 n4 n3 n5)
qed

section \<open>Returning the attention weights\<close>

lemma self_loops_step_sparse:
  assumes "self_loops_step lib L x' edge_index edge_attr size_pair = Inr (ei, ea)"
  shows "is_torch_sparse_tensor ei = is_torch_sparse_tensor edge_index"
    and "\<not> add_self_loops L \<Longrightarrow> ei = edge_index"
  using assms
  unfolding self_loops_step_def Let_def remove_self_loops_def add_self_loops_lib_def
  by (auto split: if_splits adj.splits option.splits sum.splits prod.splits)

lemma returned_None: "returned lib out ei al None = OnlyOut out"
  by (simp add: returned_def)

lemma returned_Some:
  "\<exists>ret. returned lib out ei al (Some b) = WithAttention out ret al
     \<and> (\<forall>es. ei = EdgeIndex es \<longrightarrow> ret = EdgeIndex es)
     \<and> (\<forall>s. ei = SparseAdj s \<longrightarrow> ret = SparseAdj (Sparse (sp_layout s) (sp_indices s) al))"
  by (cases ei) (simp_all add: returned_def set_sparse_value_def)

lemma returned_flag: "returned lib out ei al (Some b) = returned lib out ei al (Some c)"
  by (simp add: returned_def)

lemma softmax_shape:
  assumes "shape3 a E D H" and "length index = E"
  shows "shape3 (softmax a index) E D H"
proof (rule shape3_I)
  show "length (softmax a index) = E"
    using assms by (simp add: softmax_def shape3_def)
next
  fix e assume e: "e < E"
  then show "length (softmax a index ! e) = D"
    using assms shape3_nth(1) [OF assms(1) e] by (simp add: softmax_def shape3_def)
next
  fix e d assume e: "e < E" and d: "d < D"
  then show "length (softmax a index ! e ! d) = H"
    using assms shape3_nth [OF assms(1) e] by (simp add: softmax_def shape3_def)
qed

lemma F_dropout_shape:
  assumes "F_dropout a p tr u = Inr w" and "shape3 a E D H"
  shows "shape3 w E D H"
proof (cases tr)
  case False
  then show ?thesis using assms by (simp add: F_dropout_def split: if_splits)
next
  case True
  then have w: "w = map (\<lambda>(e, blk). map (\<lambda>(d, row). map (\<lambda>(h, v).
                   if p \<le> u e d h then v / (1 - p) else 0)
                 (zip [0..<length row] row)) (zip [0..<length blk] blk))
               (zip [0..<length a] a)"
    using assms(1) by (simp add: F_dropout_def split: if_splits)
  have la: "length a = E" using assms(2) by (simp add: shape3_def)
  show ?thesis
  proof (rule shape3_I)
    show "length w = E" unfolding w using la by simp
  next
    fix e assume e: "e < E"
    then show "length (w ! e) = D"
      unfolding w using la shape3_nth(1) [OF assms(2) e] by simp
  next
    fix e d assume e: "e < E" and d: "d < D"
    then show "length (w ! e ! d) = H"
      unfolding w using la shape3_nth [OF assms(2) e] by simp
  qed
qed

lemma edge_update_shape:
  assumes "edge_update L aj (Some ai) ea index u = Inr w"
    and "shape3 aj (length index) D H" and "shape3 ai (length index) D H" and "0 < D"
  shows "shape3 w (length index) 1 H"
proof -
  note r = mean_dim1_shape [OF add3_shape [OF assms(2,3)] assms(4)]
  show ?thesis
  proof (cases "index = []")
    case True
    then show ?thesis using assms(1) r by (simp add: edge_update_def Let_def)
  next
    case False
    then have "F_dropout
        (softmax (map (map (map (\<lambda>v. leaky_relu v (negative_slope L))))
                   (mean_dim1 (add3 aj ai))) index)
        (dropout L) (training L) u = Inr w"
      using assms(1) by (simp add: edge_update_def Let_def)
    from F_dropout_shape [OF this softmax_shape [OF map3_shape [OF r] refl]]
    show ?thesis .
  qed
qed

lemma gather_shape:
  assumes "shape3 a N D H" and "list_all (\<lambda>k. k < N) ks"
  shows "shape3 (map (\<lambda>k. a ! k) ks) (length ks) D H"
  using assms by (auto simp: shape3_def list_all_iff list_all_length)

lemma edge_updater_shape:
  assumes "edge_updater lib L ei (aj, ai) ea u = Inr w"
    and "shape3 aj N D H" and "shape3 ai N D H" and "0 < D"
  shows "shape3 w (length (edge_list lib ei)) 1 H"
proof -
  let ?es = "edge_list lib ei"
  have ok: "list_all (\<lambda>(j, i). j < length aj \<and> i < length ai) ?es"
    and u: "edge_update L (map (\<lambda>(j, i). aj ! j) ?es) (Some (map (\<lambda>(j, i). ai ! i) ?es)) ea
              (map snd ?es) u = Inr w"
    using assms(1) by (simp_all add: edge_updater_def Let_def split: if_splits)
  have n: "length aj = N" "length ai = N"
    using assms(2,3) by (simp_all add: shape3_def)
  have j: "list_all (\<lambda>k. k < N) (map fst ?es)" and i: "list_all (\<lambda>k. k < N) (map snd ?es)"
    using ok n by (auto simp: list_all_iff)
  have gj: "map (\<lambda>(j, i). aj ! j) ?es = map (\<lambda>k. aj ! k) (map fst ?es)"
    and gi: "map (\<lambda>(j, i). ai ! i) ?es = map (\<lambda>k. ai ! k) (map snd ?es)"
    by (simp_all add: case_prod_beta comp_def)
  have sj: "shape3 (map (\<lambda>(j, i). aj ! j) ?es) (length (map snd ?es)) D H"
    unfolding gj using gather_shape [OF assms(2) j] by simp
  have si: "shape3 (map (\<lambda>(j, i). ai ! i) ?es) (length (map snd ?es)) D H"
    unfolding gi using gather_shape [OF assms(3) i] by simp
  from edge_update_shape [OF u sj si assms(4)] show ?thesis by simp
qed

lemma forward_example_false:
  "forward example_lib example_layer example_x (EdgeIndex []) None None (Some False) no_draws
     = Inr (WithAttention (Tensor [3, 1, 1] [2, 4, 6]) (EdgeIndex [(0, 0), (1, 1), (2, 2)])
          (Tensor [3, 1, 1] [1, 1, 1]))"
  by (simp add: eval_defs example_layer_def example_x_def upt_3)

lemma forward_example_none:
  "forward example_lib example_layer example_x (EdgeIndex []) None None None no_draws
     = Inr (OnlyOut (Tensor [3, 1, 1] [2, 4, 6]))"
  by (simp add: eval_defs example_layer_def example_x_def upt_3)

lemma forward_example_sparse:
  "forward example_lib example_layer3 example_x
       (SparseAdj (Sparse SparseCSR [(0, 1)] (Tensor [1] [5]))) None None (Some True) no_draws
     = Inr (WithAttention (Tensor [3, 1, 1] [0, 2, 0])
          (SparseAdj (Sparse SparseCSR [(0, 1)] (Tensor [1, 1, 1] [1])))
          (Tensor [1, 1, 1] [1]))"
  by (simp add: eval_defs example_layer3_def example_layer_def example_lib_def example_x_def
        upt_3)

lemma forward_example_sparse_tensor:
  "forward example_lib example_layer3 example_x
       (SparseTensorAdj ([(0, 1)], Tensor [1] [5])) None None (Some True) no_draws
     = Inr (WithAttention (Tensor [3, 1, 1] [0, 2, 0])
          (SparseTensorAdj ([(0, 1)], Tensor [1] [5]))
          (Tensor [1, 1, 1] [1]))"
  by (simp add: eval_defs example_layer3_def example_layer_def example_lib_def example_x_def
        upt_3)

lemma example_steps:
  "lin example_layer example_x = Inr (Tensor [3, 1, 1] [2, 4, 6])"
  "view4 (Tensor [3, 1, 1] [2, 4, 6]) (shape example_x ! 1) (heads example_layer)
      (out_channels example_layer) = Inr (Tensor [3, 1, 1, 1] [2, 4, 6])"
  "self_loops_step example_lib example_layer (Tensor [3, 1, 1, 1] [2, 4, 6])
      (EdgeIndex []) None None = Inr (EdgeIndex [(0, 0), (1, 1), (2, 2)], None)"
  by (simp_all add: lin_def view4_def numel_def self_loops_step_def remove_self_loops_def
        add_self_loops_lib_def example_layer_def example_x_def upt_3)

lemma example_weights:
  "edge_updater example_lib example_layer (EdgeIndex [(0, 0), (1, 1), (2, 2)])
      (att_sum (nest4 (Tensor [3, 1, 1, 1] [2, 4, 6])) (att_src example_layer)
         (heads example_layer) (out_channels example_layer),
       att_sum (nest4 (Tensor [3, 1, 1, 1] [2, 4, 6])) (att_dst example_layer)
         (heads example_layer) (out_channels example_layer)) None no_draws
     = Inr [[[1]], [[1]], [[1]]]"
  by (simp add: eval_defs example_layer_def upt_3)

text \<open>
  C6, as the claim states it, fails in two places. A caller who passes
  \<open>return_attention_weights = False\<close> does not request the weights and gets them
  all the same: line 130 tests the flag for being a boolean, not for its value (the note
  at lines 86 to 92). And a \<open>SparseTensor\<close> of the sparse library is not a sparse
  tensor of the runtime: the test of line 131 is false for it and line 136 returns it as
  it was given, its values untouched, where the type comment of line 77 announces a
  \<open>SparseTensor\<close> in return.
\<close>

theorem forward_attention_return_counterexample:
  "forward example_lib example_layer example_x (EdgeIndex []) None None (Some False) no_draws
     = Inr (WithAttention (Tensor [3, 1, 1] [2, 4, 6]) (EdgeIndex [(0, 0), (1, 1), (2, 2)])
          (Tensor [3, 1, 1] [1, 1, 1]))
   \<and> forward example_lib example_layer3 example_x
       (SparseTensorAdj ([(0, 1)], Tensor [1] [5])) None None (Some True) no_draws
     = Inr (WithAttention (Tensor [3, 1, 1] [0, 2, 0])
          (SparseTensorAdj ([(0, 1)], Tensor [1] [5]))
          (Tensor [1, 1, 1] [1]))"
  by (intro conjI forward_example_false forward_example_sparse_tensor)

text \<open>
  C6, amended. On a successful pass, whenever \<open>return_attention_weights\<close> is a
  boolean, \<open>True\<close> or \<open>False\<close> alike, \<open>forward\<close> returns the node
  embeddings together with the adjacency of the self-loop step (the caller's own without
  \<open>add_self_loops\<close>) and the attention weights that \<open>edge_updater\<close> computed on
  that adjacency, one row per edge and one entry per head, as a tensor of shape
  \<open>[num_edges, 1, heads]\<close>. A dense edge index is returned as it is. A sparse tensor
  of the runtime stays one through the self-loop step and is returned with the same layout
  and the same edges, and with the attention weights as the values of its edges. Only when
  the flag is \<open>None\<close> are the node embeddings returned alone, and they are the same
  in both cases.
\<close>

theorem forward_attention_return:
  assumes "forward lib L x edge_index edge_attr size_pair raw u = Inr r"
  shows "\<exists>y x' ei ea alpha out al ret.
      lin L x = Inr y \<and> view4 y (shape x ! 1) (heads L) (out_channels L) = Inr x'
    \<and> self_loops_step lib L x' edge_index edge_attr size_pair = Inr (ei, ea)
    \<and> (\<not> add_self_loops L \<longrightarrow> ei = edge_index)
    \<and> is_torch_sparse_tensor ei = is_torch_sparse_tensor edge_index
    \<and> edge_updater lib L ei
          (att_sum (nest4 x') (att_src L) (heads L) (out_channels L),
           att_sum (nest4 x') (att_dst L) (heads L) (out_channels L)) ea u = Inr alpha
    \<and> shape3 alpha (length (edge_list lib ei)) 1 (heads L)
    \<and> al = Tensor [length (edge_list lib ei), 1, heads L] (concat (concat alpha))
    \<and> (\<forall>es. ei = EdgeIndex es \<longrightarrow> ret = EdgeIndex es)
    \<and> (\<forall>s. ei = SparseAdj s \<longrightarrow> ret = SparseAdj (Sparse (sp_layout s) (sp_indices s) al))
    \<and> forward lib L x edge_index edge_attr size_pair None u = Inr (OnlyOut out)
    \<and> (\<forall>b. forward lib L x edge_index edge_attr size_pair (Some b) u
          = Inr (WithAttention out ret al))
    \<and> r = (case raw of None \<Rightarrow> OnlyOut out | Some b \<Rightarrow> WithAttention out ret al)"
proof -
  from forward_Inr [OF assms] obtain y x' ei ea alpha out out' where
    d: "dim x = 3" and l: "lin L x = Inr y"
    and v: "view4 y (shape x ! 1) (heads L) (out_channels L) = Inr x'"
    and s: "self_loops_step lib L x' edge_index edge_attr size_pair = Inr (ei, ea)"
    and e: "edge_updater lib L ei
           (att_sum (nest4 x') (att_src L) (heads L) (out_channels L),
            att_sum (nest4 x') (att_dst L) (heads L) (out_channels L)) ea u = Inr alpha"
    and p: "propagate lib ei x' alpha size_pair = Inr out"
    and c: "combine_heads L out (shape x ! 1) = Inr out'"
    and r: "r = returned lib out' ei (Tensor [length alpha, 1, heads L] (concat (concat alpha))) raw"
    by blast
  define al where "al = Tensor [length (edge_list lib ei), 1, heads L] (concat (concat alpha))"
  have la: "length alpha = length (edge_list lib ei)"
    by (rule length_edge_updater [OF e])
  have f: "forward lib L x edge_index edge_attr size_pair raw' u
             = Inr (returned lib out' ei al raw')" for raw'
    using d l v s e p c by (simp add: forward_def Let_def al_def la)
  have r': "r = returned lib out' ei al raw"
    using r by (simp add: al_def la)
  have sx: "shape x' = [shape x ! 0, shape x ! 1, heads L, out_channels L]"
    by (rule view_shape [OF d l v refl refl])
  then have x': "x' = Tensor [shape x ! 0, shape x ! 1, heads L, out_channels L] (data x')"
    by (cases x') simp
  have D: "0 < shape x ! 1"
    using v by (auto simp: view4_def split: if_splits)
  have sh: "shape3 alpha (length (edge_list lib ei)) 1 (heads L)"
    using e
    by (subst (asm) (1 2) x')
       (rule edge_updater_shape [OF _ att_sum_shape att_sum_shape D])
  obtain ret where
    t: "returned lib out' ei al (Some True) = WithAttention out' ret al"
    and de: "\<forall>es. ei = EdgeIndex es \<longrightarrow> ret = EdgeIndex es"
    and sp: "\<forall>s. ei = SparseAdj s \<longrightarrow> ret = SparseAdj (Sparse (sp_layout s) (sp_indices s) al)"
    using returned_Some [of lib out' ei al True] by blast
  have t': "returned lib out' ei al (Some b) = WithAttention out' ret al" for b
    using t returned_flag [of lib out' ei al b True] by simp
  have rr: "r = (case raw of None \<Rightarrow> OnlyOut out' | Some b \<Rightarrow> WithAttention out' ret al)"
    unfolding r' by (cases raw) (simp_all add: returned_None t')
  have f0: "forward lib L x edge_index edge_attr size_pair None u = Inr (OnlyOut out')"
    using f [of None] by (simp add: returned_None)
  have fb: "\<forall>b. forward lib L x edge_index edge_attr size_pair (Some b) u
          = Inr (WithAttention out' ret al)"
    using f t' by simp
  have ns: "\<not> add_self_loops L \<longrightarrow> ei = edge_index"
    using self_loops_step_sparse(2) [OF s] by blast
  note ts = self_loops_step_sparse(1) [OF s]
  show ?thesis
    apply (rule exI [of _ y], rule exI [of _ x'], rule exI [of _ ei], rule exI [of _ ea],
           rule exI [of _ alpha], rule exI [of _ out'], rule exI [of _ al], rule exI [of _ ret])
    by (intro conjI l v s ns ts e sh al_def de sp f0 fb rr)
qed

theorem forward_attention_return_witness:
  "forward example_lib example_layer3 example_x
       (SparseAdj (Sparse SparseCSR [(0, 1)] (Tensor [1] [5]))) None None (Some True) no_draws
     = Inr (WithAttention (Tensor [3, 1, 1] [0, 2, 0])
          (SparseAdj (Sparse SparseCSR [(0, 1)] (Tensor [1, 1, 1] [1])))
          (Tensor [1, 1, 1] [1]))
   \<and> forward example_lib example_layer3 example_x
       (SparseAdj (Sparse SparseCSR [(0, 1)] (Tensor [1] [5]))) None None (Some False) no_draws
     = Inr (WithAttention (Tensor [3, 1, 1] [0, 2, 0])
          (SparseAdj (Sparse SparseCSR [(0, 1)] (Tensor [1, 1, 1] [1])))
          (Tensor [1, 1, 1] [1]))
   \<and> forward example_lib example_layer3 example_x
       (SparseAdj (Sparse SparseCSR [(0, 1)] (Tensor [1] [5]))) None None None no_draws
     = Inr (OnlyOut (Tensor [3, 1, 1] [0, 2, 0]))
   \<and> (SparseAdj (Sparse SparseCSR [(0, 1)] (Tensor [1, 1, 1] [1])) :: (edges \<times> tensor) adj)
     = SparseAdj (Sparse (sp_layout (Sparse SparseCSR [(0, 1)] (Tensor [1] [5])))
          (sp_indices (Sparse SparseCSR [(0, 1)] (Tensor [1] [5])))
          (Tensor [1, 1, 1] [1]))
   \<and> forward example_lib example_layer example_x (EdgeIndex []) None None None no_draws
     = Inr (OnlyOut (Tensor [3, 1, 1] [2, 4, 6]))
   \<and> forward example_lib example_layer example_x (EdgeIndex []) None None (Some True) no_draws
     = Inr (WithAttention (Tensor [3, 1, 1] [2, 4, 6]) (EdgeIndex [(0, 0), (1, 1), (2, 2)])
          (Tensor [3, 1, 1] [1, 1, 1]))
   \<and> shape3 [[[1]], [[1]], [[1]]]
        (length (edge_list example_lib (EdgeIndex [(0, 0), (1, 1), (2, 2)]))) 1
        (heads example_layer)"
proof -
  let ?s = "Sparse SparseCSR [(0, 1)] (Tensor [1] [5])"
  note fs = forward_example_sparse and fn = forward_example_none
  have nl: "\<not> add_self_loops example_layer3"
    by (simp add: example_layer3_def)
  from forward_attention_return [OF fs] obtain x' ei ea alpha out al ret where
    s: "self_loops_step example_lib example_layer3 x' (SparseAdj ?s) None None = Inr (ei, ea)"
    and ns: "\<not> add_self_loops example_layer3 \<longrightarrow> ei = SparseAdj ?s"
    and e: "edge_updater example_lib example_layer3 ei
          (att_sum (nest4 x') (att_src example_layer3) (heads example_layer3)
             (out_channels example_layer3),
           att_sum (nest4 x') (att_dst example_layer3) (heads example_layer3)
             (out_channels example_layer3)) ea no_draws = Inr alpha"
    and al: "al = Tensor [length (edge_list example_lib ei), 1, heads example_layer3]
                    (concat (concat alpha))"
    and sp: "\<forall>s. ei = SparseAdj s \<longrightarrow> ret = SparseAdj (Sparse (sp_layout s) (sp_indices s) al)"
    and f0: "forward example_lib example_layer3 example_x (SparseAdj ?s) None None None no_draws
               = Inr (OnlyOut out)"
    and fb: "\<forall>b. forward example_lib example_layer3 example_x (SparseAdj ?s) None None (Some b)
               no_draws = Inr (WithAttention out ret al)"
    and r: "WithAttention (Tensor [3, 1, 1] [0, 2, 0])
              (SparseAdj (Sparse SparseCSR [(0, 1)] (Tensor [1, 1, 1] [1])))
              (Tensor [1, 1, 1] [1])
            = (case Some True of None \<Rightarrow> OnlyOut out | Some b \<Rightarrow> WithAttention out ret al)"
    by blast
  have o: "out = Tensor [3, 1, 1] [0, 2, 0]"
    and rt: "ret = SparseAdj (Sparse SparseCSR [(0, 1)] (Tensor [1, 1, 1] [1]))"
    and a: "al = Tensor [1, 1, 1] [1]"
    using r by auto
  have ei: "ei = SparseAdj ?s"
    using ns nl by simp
  have c2: "forward example_lib example_layer3 example_x (SparseAdj ?s) None None (Some False)
      no_draws = Inr (WithAttention (Tensor [3, 1, 1] [0, 2, 0])
          (SparseAdj (Sparse SparseCSR [(0, 1)] (Tensor [1, 1, 1] [1])))
          (Tensor [1, 1, 1] [1]))"
    using fb unfolding o rt a by simp
  have c3: "forward example_lib example_layer3 example_x (SparseAdj ?s) None None None no_draws
      = Inr (OnlyOut (Tensor [3, 1, 1] [0, 2, 0]))"
    using f0 unfolding o .
  have c4: "(SparseAdj (Sparse SparseCSR [(0, 1)] (Tensor [1, 1, 1] [1])) :: (edges \<times> tensor) adj)
     = SparseAdj (Sparse (sp_layout ?s) (sp_indices ?s) (Tensor [1, 1, 1] [1]))"
    using sp ei rt a by simp
  from forward_attention_return [OF fn] obtain y x' ei ea alpha out al ret where
    l: "lin example_layer example_x = Inr y"
    and v: "view4 y (shape example_x ! 1) (heads example_layer) (out_channels example_layer)
              = Inr x'"
    and s: "self_loops_step example_lib example_layer x' (EdgeIndex []) None None = Inr (ei, ea)"
    and e: "edge_updater example_lib example_layer ei
          (att_sum (nest4 x') (att_src example_layer) (heads example_layer)
             (out_channels example_layer),
           att_sum (nest4 x') (att_dst example_layer) (heads example_layer)
             (out_channels example_layer)) ea no_draws = Inr alpha"
    and sh: "shape3 alpha (length (edge_list example_lib ei)) 1 (heads example_layer)"
    and al: "al = Tensor [length (edge_list example_lib ei), 1, heads example_layer]
                    (concat (concat alpha))"
    and de: "\<forall>es. ei = EdgeIndex es \<longrightarrow> ret = EdgeIndex es"
    and fb: "\<forall>b. forward example_lib example_layer example_x (EdgeIndex []) None None (Some b)
               no_draws = Inr (WithAttention out ret al)"
    and r: "OnlyOut (Tensor [3, 1, 1] [2, 4, 6])
            = (case None :: bool option of None \<Rightarrow> OnlyOut out
               | Some b \<Rightarrow> WithAttention out ret al)"
    by blast
  have o: "out = Tensor [3, 1, 1] [2, 4, 6]"
    using r by simp
  have y: "y = Tensor [3, 1, 1] [2, 4, 6]"
    using l example_steps(1) by simp
  have x': "x' = Tensor [3, 1, 1, 1] [2, 4, 6]"
    using v example_steps(2) unfolding y by simp
  have ei: "ei = EdgeIndex [(0, 0), (1, 1), (2, 2)]" "ea = None"
    using s example_steps(3) unfolding x' by simp_all
  have alpha: "alpha = [[[1]], [[1]], [[1]]]"
    using e example_weights unfolding x' ei by simp
  have rt: "ret = EdgeIndex [(0, 0), (1, 1), (2, 2)]"
    using de ei by simp
  have a: "al = Tensor [3, 1, 1] [1, 1, 1]"
    unfolding al ei alpha by (simp add: edge_list_def example_layer_def)
  have c6: "forward example_lib example_layer example_x (EdgeIndex []) None None (Some True)
      no_draws = Inr (WithAttention (Tensor [3, 1, 1] [2, 4, 6])
          (EdgeIndex [(0, 0), (1, 1), (2, 2)]) (Tensor [3, 1, 1] [1, 1, 1]))"
    using fb unfolding o rt a by simp
  have c7: "shape3 [[[1]], [[1]], [[1]]]
        (length (edge_list example_lib (EdgeIndex [(0, 0), (1, 1), (2, 2)]))) 1
        (heads example_layer)"
    using sh unfolding ei alpha .
  show ?thesis
    by (intro conjI fs c2 c3 c4 fn c6 c7)
qed

section \<open>Graphs without edges\<close>









section \<open>The caller's edge index is not changed\<close>

lemma adj_at_append: "adj_at h r = Some a \<Longrightarrow> adj_at (h @ t) r = Some a"
  by (auto simp: adj_at_def nth_append split: if_splits)

lemma attr_at_append: "attr_at h r = Some a \<Longrightarrow> attr_at (h @ t) r = Some a"
  by (auto simp: attr_at_def nth_append split: option.splits if_splits)

lemma adj_at_alloc: "adj_at (h @ [AdjObj a]) (length h) = Some a"
  by (simp add: adj_at_def)

lemma alloc_attr_ext:
  "\<exists>t r. alloc_attr h ea = (h @ t, r) \<and> attr_at (h @ t) r = Some ea"
  by (cases ea) (auto simp: alloc_attr_def alloc_def attr_at_def)

lemma call_store_Inl:
  assumes "adj_at h r_ei = Some ei" and "attr_at h r_ea = Some ea" and "f ei ea = Inl e"
  shows "call_store f r_ei r_ea h = (Inl e, h)"
  using assms by (simp add: call_store_def)

lemma call_store_Inr:
  assumes "adj_at h r_ei = Some ei" and "attr_at h r_ea = Some ea"
    and "f ei ea = Inr (ei', ea')"
  shows "\<exists>t r1 r2. call_store f r_ei r_ea h = (Inr (r1, r2), h @ t)
           \<and> adj_at (h @ t) r1 = Some ei' \<and> attr_at (h @ t) r2 = Some ea'
           \<and> length h \<le> r1"
proof -
  obtain t r where a: "alloc_attr (h @ [AdjObj ei']) ea' = ((h @ [AdjObj ei']) @ t, r)"
    and b: "attr_at ((h @ [AdjObj ei']) @ t) r = Some ea'"
    using alloc_attr_ext [of "h @ [AdjObj ei']" ea'] by blast
  have "call_store f r_ei r_ea h = (Inr (length h, r), h @ ([AdjObj ei'] @ t))"
    using assms a by (simp add: call_store_def alloc_def)
  moreover have "adj_at (h @ ([AdjObj ei'] @ t)) (length h) = Some ei'"
    using adj_at_append [OF adj_at_alloc, of h ei' t] by simp
  moreover have "attr_at (h @ ([AdjObj ei'] @ t)) r = Some ea'"
    using b by simp
  ultimately show ?thesis by blast
qed

lemma self_loops_step_store_Inl:
  assumes "adj_at h r_ei = Some ei" and "attr_at h r_ea = Some ea"
    and "self_loops_step lib L x ei ea size_pair = Inl e"
  shows "\<exists>t. self_loops_step_store lib L x r_ei r_ea size_pair h = (Inl e, h @ t)"
proof (cases "remove_self_loops lib ei ea")
  case (Inl e')
  then have "e' = e" and "add_self_loops L"
    using assms(3) by (auto simp: self_loops_step_def Let_def split: if_splits)
  then show ?thesis
    using call_store_Inl [where f = "remove_self_loops lib", OF assms(1,2) Inl]
    by (auto simp: self_loops_step_store_def Let_def intro: exI [of _ "[]"])
next
  case (Inr p)
  obtain ei' ea' where p: "p = (ei', ea')" by (cases p)
  have a: "add_self_loops L"
    using assms(3) by (auto simp: self_loops_step_def split: if_splits)
  define n where "n = (case size_pair of Some (s0, s1) \<Rightarrow> min s0 s1 | None \<Rightarrow> shape x ! 0)"
  have e: "add_self_loops_lib lib ei' ea' (fill_value L) n = Inl e"
    using assms(3) a Inr p by (simp add: self_loops_step_def Let_def n_def)
  from call_store_Inr [where f = "remove_self_loops lib", OF assms(1,2) Inr [unfolded p]] obtain t r1 r2 where
    c: "call_store (remove_self_loops lib) r_ei r_ea h = (Inr (r1, r2), h @ t)"
    and l: "adj_at (h @ t) r1 = Some ei'" "attr_at (h @ t) r2 = Some ea'"
    by blast
  have "call_store (\<lambda>ei ea. add_self_loops_lib lib ei ea (fill_value L) n) r1 r2 (h @ t)
          = (Inl e, h @ t)"
    by (rule call_store_Inl
          [where f = "\<lambda>ei ea. add_self_loops_lib lib ei ea (fill_value L) n", OF l e])
  then show ?thesis
    using a c by (auto simp: self_loops_step_store_def Let_def n_def)
qed

lemma self_loops_step_store_Inr:
  assumes "adj_at h r_ei = Some ei" and "attr_at h r_ea = Some ea"
    and "self_loops_step lib L x ei ea size_pair = Inr (ei', ea')"
  shows "\<exists>t r1 r2. self_loops_step_store lib L x r_ei r_ea size_pair h = (Inr (r1, r2), h @ t)
           \<and> adj_at (h @ t) r1 = Some ei' \<and> attr_at (h @ t) r2 = Some ea'
           \<and> (add_self_loops L \<longrightarrow> length h \<le> r1)"
proof (cases "add_self_loops L")
  case False
  then have "ei' = ei" "ea' = ea" using assms(3) by (simp_all add: self_loops_step_def)
  then show ?thesis
    using False assms(1,2)
    by (auto simp: self_loops_step_store_def intro!: exI [of _ "[]"])
next
  case True
  define n where "n = (case size_pair of Some (s0, s1) \<Rightarrow> min s0 s1 | None \<Rightarrow> shape x ! 0)"
  from assms(3) True obtain ei1 ea1 where
    r: "remove_self_loops lib ei ea = Inr (ei1, ea1)"
    and ad: "add_self_loops_lib lib ei1 ea1 (fill_value L) n = Inr (ei', ea')"
    by (auto simp: self_loops_step_def Let_def n_def split: sum.splits)
  from call_store_Inr [where f = "remove_self_loops lib", OF assms(1,2) r] obtain t r1 r2 where
    c: "call_store (remove_self_loops lib) r_ei r_ea h = (Inr (r1, r2), h @ t)"
    and l: "adj_at (h @ t) r1 = Some ei1" "attr_at (h @ t) r2 = Some ea1"
    by blast
  from call_store_Inr
         [where f = "\<lambda>ei ea. add_self_loops_lib lib ei ea (fill_value L) n", OF l ad]
  obtain t' r1' r2' where
    c': "call_store (\<lambda>ei ea. add_self_loops_lib lib ei ea (fill_value L) n) r1 r2 (h @ t)
           = (Inr (r1', r2'), (h @ t) @ t')"
    and l': "adj_at ((h @ t) @ t') r1' = Some ei'" "attr_at ((h @ t) @ t') r2' = Some ea'"
      "length (h @ t) \<le> r1'"
    by blast
  have "self_loops_step_store lib L x r_ei r_ea size_pair h = (Inr (r1', r2'), h @ (t @ t'))"
    using True c c' by (simp add: self_loops_step_store_def Let_def n_def)
  moreover have "length h \<le> r1'" using l'(3) by simp
  ultimately show ?thesis using l'(1,2) by (metis append.assoc)
qed


lemma returned_store_refines:
  assumes "adj_at h1 r1 = Some ei'"
  shows "\<exists>t rr. returned_store lib out r1 ei' al raw h1 = (rr, h1 @ t)
           \<and> deref (h1 @ t) rr = Some (returned lib out ei' al raw)
           \<and> (\<forall>out2 r al2. rr = RefWithAttention out2 r al2 \<longrightarrow> r1 \<le> r)"
proof (cases raw)
  case None
  then show ?thesis
    by (auto simp: returned_store_def returned_def deref_def intro!: exI [of _ "[]"])
next
  case (Some b)
  have lt: "r1 < length h1"
    using assms by (auto simp: adj_at_def split: if_splits)
  show ?thesis
  proof (cases ei')
    case (EdgeIndex es)
    then show ?thesis
      using Some assms
      by (auto simp: returned_store_def returned_def deref_def intro!: exI [of _ "[]"])
  next
    case (SparseTensorAdj st)
    then show ?thesis
      using Some assms
      by (auto simp: returned_store_def returned_def deref_def intro!: exI [of _ "[]"])
  next
    case (SparseAdj s)
    have "returned_store lib out r1 ei' al raw h1
        = (RefWithAttention out (length h1) al,
           h1 @ [AdjObj (SparseAdj (set_sparse_value s al))])"
      using Some SparseAdj by (simp add: returned_store_def alloc_def)
    moreover have "deref (h1 @ [AdjObj (SparseAdj (set_sparse_value s al))])
          (RefWithAttention out (length h1) al) = Some (returned lib out ei' al raw)"
      using Some SparseAdj by (simp add: deref_def adj_at_alloc returned_def)
    ultimately show ?thesis using lt by auto
  qed
qed

lemma forward_store_refines:
  assumes ra: "adj_at h r_ei = Some edge_index" and rb: "attr_at h r_ea = Some edge_attr"
  shows "\<exists>t res. forward_store lib L x r_ei r_ea size_pair raw u h = (res, h @ t)
     \<and> (case res of
          Inl e \<Rightarrow> forward lib L x edge_index edge_attr size_pair raw u = Inl e
        | Inr rr \<Rightarrow> \<exists>fr. deref (h @ t) rr = Some fr
                  \<and> forward lib L x edge_index edge_attr size_pair raw u = Inr fr)
     \<and> (\<forall>out r al. add_self_loops L \<and> res = Inr (RefWithAttention out r al)
            \<longrightarrow> length h \<le> r)"
proof -
  let ?goal = "\<lambda>res t. forward_store lib L x r_ei r_ea size_pair raw u h = (res, h @ t)
     \<and> (case res of
          Inl e \<Rightarrow> forward lib L x edge_index edge_attr size_pair raw u = Inl e
        | Inr rr \<Rightarrow> \<exists>fr. deref (h @ t) rr = Some fr
                  \<and> forward lib L x edge_index edge_attr size_pair raw u = Inr fr)
     \<and> (\<forall>out r al. add_self_loops L \<and> res = Inr (RefWithAttention out r al)
            \<longrightarrow> length h \<le> r)"
  have early: "\<exists>t res. ?goal res t"
    if "forward_store lib L x r_ei r_ea size_pair raw u h = (Inl e, h @ t)"
      and "forward lib L x edge_index edge_attr size_pair raw u = Inl e" for e t
    using that by (intro exI [of _ t] exI [of _ "Inl e"]) simp
  show ?thesis
  proof (cases "dim x = 3")
    case False
    then show ?thesis
      by (intro early [of _ "[]"]) (simp_all add: forward_store_def forward_def)
  next
    case d: True
    show ?thesis
    proof (cases "lin L x")
      case (Inl e)
      then show ?thesis using d
        by (intro early [of e "[]"]) (simp_all add: forward_store_def forward_def)
    next
      case y: (Inr y)
      show ?thesis
      proof (cases "view4 y (shape x ! 1) (heads L) (out_channels L)")
        case (Inl e)
        then show ?thesis using d y
          by (intro early [of e "[]"]) (simp_all add: forward_store_def forward_def)
      next
        case x': (Inr x')
        let ?al = "(att_sum (nest4 x') (att_src L) (heads L) (out_channels L),
                    att_sum (nest4 x') (att_dst L) (heads L) (out_channels L))"
        show ?thesis
        proof (cases "self_loops_step lib L x' edge_index edge_attr size_pair")
          case (Inl e)
          from self_loops_step_store_Inl [OF ra rb Inl] obtain t where
            "self_loops_step_store lib L x' r_ei r_ea size_pair h = (Inl e, h @ t)" by blast
          then show ?thesis using d y x' Inl
            by (intro early [of e t]) (simp_all add: forward_store_def forward_def)
        next
          case (Inr p)
          obtain ei' ea' where p: "p = (ei', ea')" by (cases p)
          from self_loops_step_store_Inr [OF ra rb Inr [unfolded p]] obtain t r1 r2 where
            st: "self_loops_step_store lib L x' r_ei r_ea size_pair h = (Inr (r1, r2), h @ t)"
            and l1: "adj_at (h @ t) r1 = Some ei'" and l2: "attr_at (h @ t) r2 = Some ea'"
            and fr: "add_self_loops L \<longrightarrow> length h \<le> r1"
            by blast
          note pre = d y x' Inr p st l1 l2
          show ?thesis
          proof (cases "edge_updater lib L ei' ?al ea' u")
            case (Inl e)
            then show ?thesis using pre
              by (intro early [of e t]) (simp_all add: forward_store_def forward_def)
          next
            case al: (Inr alpha)
            show ?thesis
            proof (cases "propagate lib ei' x' alpha size_pair")
              case (Inl e)
              then show ?thesis using pre al
                by (intro early [of e t]) (simp_all add: forward_store_def forward_def)
            next
              case out: (Inr out)
              show ?thesis
              proof (cases "combine_heads L out (shape x ! 1)")
                case (Inl e)
                then show ?thesis using pre al out
                  by (intro early [of e t]) (simp_all add: forward_store_def forward_def)
              next
                case out': (Inr out')
                let ?at = "Tensor [length alpha, 1, heads L] (concat (concat alpha))"
                from returned_store_refines [OF l1, of lib out' ?at raw] obtain t' rr where
                  rs: "returned_store lib out' r1 ei' ?at raw (h @ t) = (rr, (h @ t) @ t')"
                  and dr: "deref ((h @ t) @ t') rr = Some (returned lib out' ei' ?at raw)"
                  and ge: "\<forall>out2 r al2. rr = RefWithAttention out2 r al2 \<longrightarrow> r1 \<le> r"
                  by blast
                have f: "forward lib L x edge_index edge_attr size_pair raw u
                           = Inr (returned lib out' ei' ?at raw)"
                  using pre al out out' by (simp add: forward_def)
                have fs: "forward_store lib L x r_ei r_ea size_pair raw u h
                           = (Inr rr, h @ (t @ t'))"
                  using pre al out out' rs by (simp add: forward_store_def)
                have "?goal (Inr rr) (t @ t')"
                  using f fs dr ge fr by auto
                then show ?thesis by blast
              qed
            qed
          qed
        qed
      qed
    qed
  qed
qed

lemma forward_store_example:
  "forward_store example_lib example_layer example_x 0 None None (Some True) no_draws
       example_store
     = (Inr (RefWithAttention
          (Tensor [3, 1, 1]
             [2, (2 * exp (- 2) + 4) / (exp (- 2) + 1), (4 * exp (- 2) + 6) / (exp (- 2) + 1)])
          2
          (Tensor [5, 1, 1]
             [exp (- 2) / (exp (- 2) + 1), exp (- 2) / (exp (- 2) + 1), 1,
              1 / (exp (- 2) + 1), 1 / (exp (- 2) + 1)])),
        example_store @ [AdjObj (EdgeIndex [(0, 1), (1, 2)]),
                         AdjObj (EdgeIndex [(0, 1), (1, 2), (0, 0), (1, 1), (2, 2)])])"
  by (simp add: forward_store_def self_loops_step_store_def call_store_def alloc_def
        alloc_attr_def adj_at_def attr_at_def returned_store_def example_store_def
        dim_def Let_def lin_def view4_def nest4_def att_sum_def remove_self_loops_def
        add_self_loops_lib_def edge_updater_def edge_list_def edge_update_def add3_def
        mean_dim1_def leaky_relu_def softmax_def group_def F_dropout_def propagate_def
        message_def scale_heads_def aggregate_def flatten4_def view3_def numel_def
        combine_heads_def example_layer_def example_x_def upt_3 add_divide_distrib
        mult.commute)

text \<open>
  C8. Let the caller hold the edge index and the optional edge attributes by reference.
  A call of \<open>forward\<close> only adds objects to the store: whether it succeeds or fails,
  the caller's edge index and edge attributes are afterwards what they were before.
  The call computes what \<open>forward\<close> computes on the values, and with
  \<open>add_self_loops\<close> the adjacency it hands back is a new object, not the caller's.
\<close>

theorem forward_store_frame:
  assumes "adj_at h r_ei = Some edge_index" and "attr_at h r_ea = Some edge_attr"
  shows "\<exists>t res. forward_store lib L x r_ei r_ea size_pair raw u h = (res, h @ t)
     \<and> adj_at (h @ t) r_ei = Some edge_index \<and> attr_at (h @ t) r_ea = Some edge_attr
     \<and> (case res of
          Inl e \<Rightarrow> forward lib L x edge_index edge_attr size_pair raw u = Inl e
        | Inr rr \<Rightarrow> \<exists>fr. deref (h @ t) rr = Some fr
                  \<and> forward lib L x edge_index edge_attr size_pair raw u = Inr fr)
     \<and> (\<forall>out r al. add_self_loops L \<and> res = Inr (RefWithAttention out r al)
            \<longrightarrow> length h \<le> r)"
proof -
  from forward_store_refines [OF assms, of lib L x size_pair raw u] obtain t res where
    a: "forward_store lib L x r_ei r_ea size_pair raw u h = (res, h @ t)"
    and b: "(case res of
          Inl e \<Rightarrow> forward lib L x edge_index edge_attr size_pair raw u = Inl e
        | Inr rr \<Rightarrow> \<exists>fr. deref (h @ t) rr = Some fr
                  \<and> forward lib L x edge_index edge_attr size_pair raw u = Inr fr)"
    and c: "\<forall>out r al. add_self_loops L \<and> res = Inr (RefWithAttention out r al)
            \<longrightarrow> length h \<le> r"
    by blast
  show ?thesis
    using a b c adj_at_append [OF assms(1), of t] attr_at_append [OF assms(2), of t]
    by blast
qed

theorem forward_store_frame_witness:
  "adj_at example_store 0 = Some (EdgeIndex [(0, 0), (0, 1), (1, 2)])
   \<and> attr_at example_store None = Some None
   \<and> adj_at (snd (forward_store example_lib example_layer example_x 0 None None (Some True)
                     no_draws example_store)) 0
       = Some (EdgeIndex [(0, 0), (0, 1), (1, 2)])
   \<and> adj_at (snd (forward_store example_lib example_layer example_x 0 None None (Some True)
                     no_draws example_store)) 2
       = Some (EdgeIndex [(0, 1), (1, 2), (0, 0), (1, 1), (2, 2)])"
proof -
  have a: "adj_at example_store 0 = Some (EdgeIndex [(0, 0), (0, 1), (1, 2)])"
    by (simp add: adj_at_def example_store_def)
  have b: "attr_at example_store None = Some None"
    by (simp add: attr_at_def)
  from forward_store_frame [OF a b, of example_lib example_layer example_x None "Some True"
         no_draws]
  obtain t res where
    "forward_store example_lib example_layer example_x 0 None None (Some True) no_draws
        example_store = (res, example_store @ t)"
    and "adj_at (example_store @ t) 0 = Some (EdgeIndex [(0, 0), (0, 1), (1, 2)])"
    by blast
  then have c: "adj_at (snd (forward_store example_lib example_layer example_x 0 None None
                     (Some True) no_draws example_store)) 0
       = Some (EdgeIndex [(0, 0), (0, 1), (1, 2)])"
    by simp
  have d: "adj_at (snd (forward_store example_lib example_layer example_x 0 None None
                     (Some True) no_draws example_store)) 2
       = Some (EdgeIndex [(0, 1), (1, 2), (0, 0), (1, 1), (2, 2)])"
    by (simp add: forward_store_example) (simp add: adj_at_def example_store_def)
  show ?thesis
    by (intro conjI a b c d)
qed

end
